theory Spec2Isabelle
  imports Main "HOL-Library.AList" "HOL-Library.Sublist"
begin

section \<open>Data model\<close>

text \<open>
  Strings of the program are modelled as \<^typ>\<open>string\<close>: a list of characters, one
  element per code unit, so that \<open>length\<close> is the program's \<open>.length\<close>. The templates,
  digits and separators of the program are ASCII.

  A plain object used as a dictionary (\<open>Record<string, V>\<close>) is an association list of
  its own properties in the order of \<open>Object.entries\<close>. The keys of an object are pairwise
  different, which is the predicate \<open>isObject\<close>. A lookup of an own property \<open>obj[k]\<close> is
  \<^const>\<open>map_of\<close>, \<open>delete obj[k]\<close> is \<^const>\<open>AList.delete\<close>, and a copy \<open>{ ...obj }\<close> has
  the entries of \<open>obj\<close> in the same order.
\<close>

record FileData =
  file_content :: "string list"
  created_at :: string
  modified_at :: string

type_synonym FilesRecord = "(string \<times> FileData) list"

text \<open>In an update the value \<open>null\<close> is \<^const>\<open>None\<close> and signals deletion.\<close>

type_synonym FilesRecordUpdate = "(string \<times> FileData option) list"

definition isObject :: "('k \<times> 'v) list \<Rightarrow> bool" where
  "isObject obj = distinct (map fst obj)"

section \<open>Property assignment of the host language\<close>

text \<open>
  The host language lists the own properties of an object with the array indices first,
  in ascending numeric order, and then the other keys in the order of their creation. An
  array index is the decimal rendering, without a leading zero, of an integer from 0 to
  4294967294. \<open>ownKeyBefore k k'\<close> says that \<open>k\<close> may stand before \<open>k'\<close>, and
  \<open>ownKeyOrder\<close> that an association list is in that order.
\<close>

definition indexValue :: "string \<Rightarrow> int" where
  "indexValue k = foldl (\<lambda>n c. 10 * n + (of_char c - 48)) 0 k"

definition isArrayIndex :: "string \<Rightarrow> bool" where
  "isArrayIndex k =
     (k \<noteq> [] \<and> list_all (\<lambda>c. c \<in> set ''0123456789'') k \<and> (k = ''0'' \<or> hd k \<noteq> CHR ''0'') \<and>
      indexValue k < 4294967295)"

definition ownKeyBefore :: "string \<Rightarrow> string \<Rightarrow> bool" where
  "ownKeyBefore k k' =
     (if isArrayIndex k' then isArrayIndex k \<and> indexValue k < indexValue k' else True)"

definition ownKeyOrder :: "(string \<times> 'v) list \<Rightarrow> bool" where
  "ownKeyOrder obj = sorted_wrt ownKeyBefore (map fst obj)"

text \<open>A new own property takes its place in that order.\<close>

fun insertOwn :: "string \<Rightarrow> 'v \<Rightarrow> (string \<times> 'v) list \<Rightarrow> (string \<times> 'v) list" where
  "insertOwn k v [] = [(k, v)]"
| "insertOwn k v (e # rest) =
     (if ownKeyBefore (fst e) k then e # insertOwn k v rest else (k, v) # e # rest)"

text \<open>
  The assignment \<open>obj[k] = v\<close> to a plain object, for a value \<open>v\<close> that is itself a plain
  object or \<open>null\<close> (the values here are file records). An own property keeps its place and
  gets the new value. The key \<open>__proto__\<close>, when it is not an own property, reaches the
  accessor that the object inherits from \<open>Object.prototype\<close>: the assignment replaces the
  prototype of the object and creates no own property, so the entries stay as they are.
  Every other new key becomes an own property.
\<close>

definition jsAssign :: "string \<Rightarrow> 'v \<Rightarrow> (string \<times> 'v) list \<Rightarrow> (string \<times> 'v) list" where
  "jsAssign k v obj =
     (if k \<in> set (map fst obj) then AList.update k v obj
      else if k = ''__proto__'' then obj
      else insertOwn k v obj)"

section \<open>The file-state reducer (middleware/fs.ts)\<close>

text \<open>
  The two loops of \<open>fileDataReducer\<close> over \<open>Object.entries(update)\<close>: the first seeds an
  empty result with \<open>result[key] = value\<close> and skips \<open>null\<close> values, the second starts from
  the copy \<open>{ ...current }\<close> and deletes the key on a \<open>null\<close> value.
\<close>

definition seedEntry :: "string \<times> FileData option \<Rightarrow> FilesRecord \<Rightarrow> FilesRecord" where
  "seedEntry e result =
     (case e of (key, value) \<Rightarrow>
        (case value of None \<Rightarrow> result | Some v \<Rightarrow> jsAssign key v result))"

definition mergeEntry :: "string \<times> FileData option \<Rightarrow> FilesRecord \<Rightarrow> FilesRecord" where
  "mergeEntry e result =
     (case e of (key, value) \<Rightarrow>
        (case value of None \<Rightarrow> AList.delete key result | Some v \<Rightarrow> jsAssign key v result))"

definition fileDataReducer ::
    "FilesRecord option \<Rightarrow> FilesRecordUpdate option \<Rightarrow> FilesRecord" where
  "fileDataReducer current update =
     (case update of
        None \<Rightarrow> (case current of None \<Rightarrow> [] | Some c \<Rightarrow> c)
      | Some u \<Rightarrow>
          (case current of
             None \<Rightarrow> fold seedEntry u []
           | Some c \<Rightarrow> fold mergeEntry u c))"

text \<open>The update with its \<open>null\<close>-valued entries dropped, in the words of the specification.\<close>

definition dropNullEntries :: "FilesRecordUpdate \<Rightarrow> FilesRecord" where
  "dropNullEntries u = concat (map (\<lambda>(k, v). case v of None \<Rightarrow> [] | Some d \<Rightarrow> [(k, d)]) u)"


section \<open>Strings and arrays of the host language\<close>

text \<open>
  \<open>s.split("\n")\<close>: the pieces between line feeds; the empty string has one (empty) piece.
\<close>

fun splitLines :: "string \<Rightarrow> string list" where
  "splitLines [] = [[]]"
| "splitLines (c # cs) =
     (if c = CHR 0x0A then [] # splitLines cs
      else (case splitLines cs of [] \<Rightarrow> [[c]] | l # ls \<Rightarrow> (c # l) # ls))"

text \<open>\<open>xs.join(sep)\<close>.\<close>

fun jsJoin :: "string \<Rightarrow> string list \<Rightarrow> string" where
  "jsJoin sep [] = []"
| "jsJoin sep [x] = x"
| "jsJoin sep (x # y # ys) = x @ sep @ jsJoin sep (y # ys)"

text \<open>
  \<open>s.substring(0, n)\<close>, \<open>xs.slice(0, n)\<close> and \<open>xs.slice(n)\<close> for an integer \<open>n\<close>:
  \<open>substring\<close> clamps a negative bound to 0, \<open>slice\<close> counts a negative bound from the
  end of the array.
\<close>

definition jsSubstring0 :: "int \<Rightarrow> string \<Rightarrow> string" where
  "jsSubstring0 n s = take (nat n) s"

definition jsSliceTo :: "int \<Rightarrow> 'a list \<Rightarrow> 'a list" where
  "jsSliceTo n xs = (if n < 0 then take (nat (int (length xs) + n)) xs else take (nat n) xs)"

definition jsSliceFrom :: "int \<Rightarrow> 'a list \<Rightarrow> 'a list" where
  "jsSliceFrom n xs = (if n < 0 then drop (nat (int (length xs) + n)) xs else drop (nat n) xs)"

text \<open>Decimal rendering of an integer (\<open>String(n)\<close>, template literals) and \<open>padStart\<close>.\<close>

definition digitChar :: "nat \<Rightarrow> char" where
  "digitChar d = ''0123456789'' ! d"

fun showNat :: "nat \<Rightarrow> string" where
  "showNat n = (if n < 10 then [digitChar n] else showNat (n div 10) @ [digitChar (n mod 10)])"

declare showNat.simps [simp del]

definition showInt :: "int \<Rightarrow> string" where
  "showInt i = (if i < 0 then CHR ''-'' # showNat (nat (- i)) else showNat (nat i))"

definition padStart :: "nat \<Rightarrow> string \<Rightarrow> string" where
  "padStart w s = replicate (w - length s) CHR '' '' @ s"

text \<open>
  \<open>s.replace(pattern, replacement)\<close> with a string pattern: the first occurrence of the
  pattern is replaced, and in the replacement text \<open>$$\<close> stands for a dollar sign,
  \<open>$&\<close> for the matched text, \<open>$`\<close> for the text before the match and \<open>$'\<close> for the
  text after it; every other character is copied. \<open>findFirst\<close> splits the subject
  around the first occurrence.
\<close>

fun findFirst :: "string \<Rightarrow> string \<Rightarrow> (string \<times> string) option" where
  "findFirst pat [] = (if pat = [] then Some ([], []) else None)"
| "findFirst pat (c # cs) =
     (if prefix pat (c # cs) then Some ([], drop (length pat) (c # cs))
      else map_option (\<lambda>(before, after). (c # before, after)) (findFirst pat cs))"

fun getSubstitution :: "string \<Rightarrow> string \<Rightarrow> string \<Rightarrow> string \<Rightarrow> string" where
  "getSubstitution matched before after [] = []"
| "getSubstitution matched before after [c] = [c]"
| "getSubstitution matched before after (c # d # rest) =
     (if c = CHR ''$'' \<and> d = CHR ''$'' then CHR ''$'' # getSubstitution matched before after rest
      else if c = CHR ''$'' \<and> d = CHR ''&'' then matched @ getSubstitution matched before after rest
      else if c = CHR ''$'' \<and> d = CHR 0x60 then before @ getSubstitution matched before after rest
      else if c = CHR ''$'' \<and> d = CHR 0x27 then after @ getSubstitution matched before after rest
      else c # getSubstitution matched before after (d # rest))"

definition jsReplace :: "string \<Rightarrow> string \<Rightarrow> string \<Rightarrow> string" where
  "jsReplace s pat replacement =
     (case findFirst pat s of
        None \<Rightarrow> s
      | Some (before, after) \<Rightarrow> before @ getSubstitution pat before after replacement @ after)"

text \<open>A string or an optional string in a condition: absent and empty count as false.\<close>

definition truthy :: "string option \<Rightarrow> bool" where
  "truthy v = (case v of None \<Rightarrow> False | Some s \<Rightarrow> s \<noteq> [])"

text \<open>
  \<open>Object.assign(target, source)\<close>: every entry of the source is assigned to the target in
  order, each with \<open>target[k] = v\<close>.
\<close>

definition objectAssign ::
    "(string \<times> 'v) list \<Rightarrow> (string \<times> 'v) list \<Rightarrow> (string \<times> 'v) list" where
  "objectAssign target source = fold (\<lambda>(k, v) obj. jsAssign k v obj) source target"

section \<open>Line-numbered output (backends/utils)\<close>

text \<open>
  Modelled from the spec: \<open>formatContentWithLineNumbers\<close> of \<open>backends/utils\<close>, which
  is imported by \<open>middleware/fs.ts\<close> and whose file is not among the sources. The
  specification asks for 1-indexed numbered-line output; the description of the
  \<open>read_file\<close> tool in \<open>middleware/fs.ts\<close> calls it the \<open>cat -n\<close> format and says that a
  line longer than 10,000 characters is split into several output lines with
  continuation markers (5.1, 5.2, ...). So a line is rendered as its number,
  right-aligned in six columns, a tab and the text; a longer line is cut into chunks of
  10,000 characters, the first labelled with the line number and chunk \<open>k\<close> with
  \<open>number.k\<close>; the output lines are joined by line feeds.
\<close>

fun chunksOf :: "nat \<Rightarrow> 'a list \<Rightarrow> 'a list list" where
  "chunksOf n xs = (if n = 0 \<or> xs = [] then [] else take n xs # chunksOf n (drop n xs))"

declare chunksOf.simps [simp del]

definition numberedLine :: "string \<Rightarrow> string \<Rightarrow> string" where
  "numberedLine label line = padStart 6 label @ CHR 0x09 # line"

definition formatLine :: "int \<Rightarrow> string \<Rightarrow> string list" where
  "formatLine lineNum line =
     (if length line \<le> 10000 then [numberedLine (showInt lineNum) line]
      else map (\<lambda>(chunkIdx, chunk).
                  numberedLine
                    (if chunkIdx = 0 then showInt lineNum
                     else showInt lineNum @ ''.'' @ showNat chunkIdx) chunk)
             (enumerate 0 (chunksOf 10000 line)))"

definition formatContentWithLineNumbers :: "string list \<Rightarrow> int \<Rightarrow> string" where
  "formatContentWithLineNumbers lines startLine =
     jsJoin [CHR 0x0A]
       (concat (map (\<lambda>(i, line). formatLine (startLine + int i) line) (enumerate 0 lines)))"

section \<open>Constants and the content preview (middleware/fs.ts)\<close>

definition TOOLS_EXCLUDED_FROM_EVICTION :: "string list" where
  "TOOLS_EXCLUDED_FROM_EVICTION =
     [''ls'', ''glob'', ''grep'', ''read_file'', ''edit_file'', ''write_file'']"

definition NUM_CHARS_PER_TOKEN :: int where
  "NUM_CHARS_PER_TOKEN = 4"

definition DEFAULT_READ_LINE_OFFSET :: int where
  "DEFAULT_READ_LINE_OFFSET = 0"

definition DEFAULT_READ_LINE_LIMIT :: int where
  "DEFAULT_READ_LINE_LIMIT = 100"

definition READ_FILE_TRUNCATION_MSG :: string where
  "READ_FILE_TRUNCATION_MSG =
     ''\<newline>\<newline>[Output was truncated due to size limits. The file content is very large. Consider reformatting the file to make it easier to navigate. For example, if this is JSON, use execute(command='jq . {file_path}') to pretty-print it with line breaks. For other formats, you can use appropriate formatting tools to split long lines.]''"

definition TOO_LARGE_TOOL_MSG :: string where
  "TOO_LARGE_TOOL_MSG =
     ''Tool result too large, the result of this tool call {tool_call_id} was saved in the filesystem at this path: {file_path}\<newline>You can read the result from the filesystem by using the read_file tool, but make sure to only read part of the result at a time.\<newline>You can do this by specifying an offset and limit in the read_file tool call.\<newline>For example, to read the first 100 lines, you can use the read_file tool with offset=0 and limit=100.\<newline>\<newline>Here is a preview showing the head and tail of the result (lines of the form\<newline>... [N lines truncated] ...\<newline>indicate omitted lines in the middle of the content):\<newline>\<newline>{content_sample}''"

definition createContentPreview :: "string \<Rightarrow> int \<Rightarrow> int \<Rightarrow> string" where
  "createContentPreview contentStr headLines tailLines =
     (let lines = splitLines contentStr in
      if int (length lines) \<le> headLines + tailLines then
        formatContentWithLineNumbers (map (jsSubstring0 1000) lines) 1
      else
        (let head = map (jsSubstring0 1000) (jsSliceTo headLines lines);
             tail = map (jsSubstring0 1000) (jsSliceFrom (- tailLines) lines);
             headSample = formatContentWithLineNumbers head 1;
             truncationNotice =
               [CHR 0x0A] @ ''... ['' @ showInt (int (length lines) - headLines - tailLines)
                 @ '' lines truncated] ...'' @ [CHR 0x0A];
             tailSample = formatContentWithLineNumbers tail (int (length lines) - tailLines + 1)
         in headSample @ truncationNotice @ tailSample))"

text \<open>The call of the eviction wrapper: \<open>createContentPreview(msg.content)\<close>, head and tail 5.\<close>

definition createContentPreviewDefault :: "string \<Rightarrow> string" where
  "createContentPreviewDefault contentStr = createContentPreview contentStr 5 5"

section \<open>Backends, messages and tool results\<close>

text \<open>
  A value that an operation throws (a rejected promise, \<open>throw new Error(...)\<close>). A
  computation that may throw returns \<open>jsError + 'a\<close>, with \<^const>\<open>Inl\<close> for the throw.
\<close>

datatype jsError = Error string

record WriteResult =
  error :: "string option"
  filesUpdate :: "FilesRecordUpdate option"

record FileInfo =
  info_path :: string
  is_dir :: "bool option"

text \<open>
  One response of \<open>downloadFiles\<close>. The content stands for the text that
  \<open>new TextDecoder().decode\<close> yields from the bytes.
\<close>

record FileDownloadResponse =
  dl_content :: "string option"
  dl_error :: "string option"

text \<open>
  The backend protocol, over a storage \<open>'b\<close> that only \<open>write\<close> changes: each operation
  is a function of the storage, and \<open>write\<close> also returns the new storage. The operation
  \<open>write\<close> is named \<open>writeFile\<close> here. \<open>read\<close> takes its optional offset and limit;
  \<open>downloadFiles\<close> is optional.
\<close>

record 'b BackendProtocol =
  lsInfo :: "string \<Rightarrow> 'b \<Rightarrow> jsError + FileInfo list"
  read :: "string \<Rightarrow> int option \<Rightarrow> int option \<Rightarrow> 'b \<Rightarrow> jsError + string"
  writeFile :: "string \<Rightarrow> string \<Rightarrow> 'b \<Rightarrow> (jsError + WriteResult) \<times> 'b"
  downloadFiles :: "(string list \<Rightarrow> 'b \<Rightarrow> jsError + FileDownloadResponse list) option"

record SkillMetadata =
  name :: string
  description :: string
  path :: string
  license :: "string option"
  compatibility :: "string option"
  metadata :: "(string \<times> string) list"
  allowedTools :: "string list"

text \<open>The part of the agent state that the three middlewares read.\<close>

record AgentState =
  files :: "FilesRecord option"
  memoryContents :: "(string \<times> string) list option"
  skillsMetadata :: "SkillMetadata list option"

definition emptyState :: AgentState where
  "emptyState = \<lparr>files = None, memoryContents = None, skillsMetadata = None\<rparr>"

typedecl BaseStore

record StateAndStore =
  state :: AgentState
  store :: "BaseStore option"

text \<open>A backend is an instance or a factory that is called with the state and the store.\<close>

datatype 'b Backend =
  Instance "'b BackendProtocol"
| Factory "StateAndStore \<Rightarrow> 'b BackendProtocol"

definition getBackend :: "'b Backend \<Rightarrow> StateAndStore \<Rightarrow> 'b BackendProtocol" where
  "getBackend backend stateAndStore =
     (case backend of Factory f \<Rightarrow> f stateAndStore | Instance b \<Rightarrow> b)"

text \<open>
  The content of a message is a string or a list of content blocks. Messages of a command
  are tool messages or messages of another kind.
\<close>

datatype MessageContent = Text string | Blocks "string list"

record ToolMessage =
  content :: MessageContent
  tool_call_id :: string
  msg_name :: "string option"

datatype Message = ToolMsg ToolMessage | OtherMsg string

record CommandUpdate =
  messages :: "Message list option"
  cmd_files :: "FilesRecordUpdate option"
  other_keys :: "(string \<times> string) list"

record Command =
  cmd_update :: "CommandUpdate option"
  goto :: "string option"

text \<open>What the wrapped handler returns: a tool message, a command, or anything else.\<close>

datatype HandlerResult =
  ResultMessage ToolMessage
| ResultCommand Command
| ResultOther string

record ToolCall =
  call_name :: "string option"
  call_id :: "string option"

record ToolCallRequest =
  toolCall :: "ToolCall option"
  req_state :: "AgentState option"
  req_store :: "BaseStore option"

section \<open>The read_file tool (middleware/fs.ts)\<close>

record ReadFileInput =
  file_path :: string
  offset :: "int option"
  limit :: "int option"

text \<open>
  The two steps of the tool after the backend has answered: the line limit
  (\<open>lines.slice(0, limit).join("\n")\<close> when there are more lines than the limit) and the
  character cap with its notice.
\<close>

definition enforceLineLimit :: "int \<Rightarrow> string \<Rightarrow> string" where
  "enforceLineLimit lim result0 =
     (let lines = splitLines result0 in
      if int (length lines) > lim then jsJoin [CHR 0x0A] (jsSliceTo lim lines) else result0)"

definition readTruncationMsg :: "string \<Rightarrow> string" where
  "readTruncationMsg filePath = jsReplace READ_FILE_TRUNCATION_MSG ''{file_path}'' filePath"

definition enforceCharLimit :: "int option \<Rightarrow> string \<Rightarrow> string \<Rightarrow> string" where
  "enforceCharLimit toolTokenLimitBeforeEvict filePath result1 =
     (case toolTokenLimitBeforeEvict of
        None \<Rightarrow> result1
      | Some t \<Rightarrow>
          if t \<noteq> 0 \<and> int (length result1) \<ge> NUM_CHARS_PER_TOKEN * t then
            (let truncationMsg = readTruncationMsg filePath;
                 maxContentLength = NUM_CHARS_PER_TOKEN * t - int (length truncationMsg)
             in jsSubstring0 maxContentLength result1 @ truncationMsg)
          else result1)"

definition readFileTool ::
    "'b Backend \<Rightarrow> int option \<Rightarrow> ReadFileInput \<Rightarrow> StateAndStore \<Rightarrow> 'b \<Rightarrow> jsError + string" where
  "readFileTool backend toolTokenLimitBeforeEvict input stateAndStore b =
     (let resolvedBackend = getBackend backend stateAndStore;
          off = (case offset input of None \<Rightarrow> DEFAULT_READ_LINE_OFFSET | Some v \<Rightarrow> v);
          lim = (case limit input of None \<Rightarrow> DEFAULT_READ_LINE_LIMIT | Some v \<Rightarrow> v)
      in case read resolvedBackend (file_path input) (Some off) (Some lim) b of
           Inl e \<Rightarrow> Inl e
         | Inr result0 \<Rightarrow>
             Inr (enforceCharLimit toolTokenLimitBeforeEvict (file_path input)
                    (enforceLineLimit lim result0)))"

section \<open>The eviction wrapper (middleware/fs.ts)\<close>

text \<open>
  \<open>sanitizeToolCallId\<close> is imported from \<open>backends/utils\<close>, which is not among the
  sources: it is a parameter of the wrapper. \<open>request.toolCall?.id || msg.tool_call_id\<close> is
  \<open>evictionId\<close>, \<open>request.toolCall?.name\<close> is \<open>requestToolName\<close>, and the test
  \<open>toolName && TOOLS_EXCLUDED_FROM_EVICTION.includes(toolName)\<close> is \<open>excludedFromEviction\<close>.
\<close>

definition requestToolName :: "ToolCallRequest \<Rightarrow> string option" where
  "requestToolName request = (case toolCall request of None \<Rightarrow> None | Some c \<Rightarrow> call_name c)"

definition excludedFromEviction :: "ToolCallRequest \<Rightarrow> bool" where
  "excludedFromEviction request =
     (truthy (requestToolName request) \<and>
      the (requestToolName request) \<in> set TOOLS_EXCLUDED_FROM_EVICTION)"

definition evictionId :: "ToolCallRequest \<Rightarrow> ToolMessage \<Rightarrow> string" where
  "evictionId request msg =
     (case toolCall request of
        None \<Rightarrow> tool_call_id msg
      | Some c \<Rightarrow> (if truthy (call_id c) then the (call_id c) else tool_call_id msg))"

definition evictPathOf :: "(string \<Rightarrow> string) \<Rightarrow> ToolCallRequest \<Rightarrow> ToolMessage \<Rightarrow> string" where
  "evictPathOf sanitizeToolCallId request msg =
     ''/large_tool_results/'' @ sanitizeToolCallId (evictionId request msg)"

definition replacementText :: "string \<Rightarrow> string \<Rightarrow> string \<Rightarrow> string" where
  "replacementText toolCallId evictPath text =
     jsReplace
       (jsReplace (jsReplace TOO_LARGE_TOOL_MSG ''{tool_call_id}'' toolCallId)
          ''{file_path}'' evictPath)
       ''{content_sample}'' (createContentPreviewDefault text)"

definition truncatedMessage :: "ToolMessage \<Rightarrow> string \<Rightarrow> string \<Rightarrow> ToolMessage" where
  "truncatedMessage msg evictPath text =
     \<lparr>content = Text (replacementText (tool_call_id msg) evictPath text),
      tool_call_id = tool_call_id msg,
      msg_name = msg_name msg\<rparr>"

definition requestStateAndStore :: "ToolCallRequest \<Rightarrow> StateAndStore" where
  "requestStateAndStore request =
     \<lparr>state = (case req_state request of None \<Rightarrow> emptyState | Some s \<Rightarrow> s),
      store = req_store request\<rparr>"

text \<open>
  \<open>processToolMessage\<close> returns the pair of \<open>message\<close> and \<open>filesUpdate\<close>, and the storage
  after the write.
\<close>

definition processToolMessage ::
    "'b Backend \<Rightarrow> (string \<Rightarrow> string) \<Rightarrow> ToolCallRequest \<Rightarrow> ToolMessage \<Rightarrow> int \<Rightarrow> 'b \<Rightarrow>
     (jsError + ToolMessage \<times> FilesRecordUpdate option) \<times> 'b" where
  "processToolMessage backend sanitizeToolCallId request msg toolTokenLimitBeforeEvict b =
     (case content msg of
        Blocks _ \<Rightarrow> (Inr (msg, None), b)
      | Text text \<Rightarrow>
          if int (length text) > toolTokenLimitBeforeEvict * NUM_CHARS_PER_TOKEN then
            (let resolvedBackend = getBackend backend (requestStateAndStore request);
                 evictPath = evictPathOf sanitizeToolCallId request msg
             in case writeFile resolvedBackend evictPath text b of
                  (Inl e, b') \<Rightarrow> (Inl e, b')
                | (Inr writeResult, b') \<Rightarrow>
                    if truthy (error writeResult) then (Inr (msg, None), b')
                    else (Inr (truncatedMessage msg evictPath text, filesUpdate writeResult), b'))
          else (Inr (msg, None), b))"

text \<open>
  The loop over the messages of a command. Its state is \<open>hasLargeResults\<close>,
  \<open>accumulatedFiles\<close> and \<open>processedMessages\<close>; a throw of the write ends it.
\<close>

fun processMessages ::
    "'b Backend \<Rightarrow> (string \<Rightarrow> string) \<Rightarrow> ToolCallRequest \<Rightarrow> int \<Rightarrow> Message list \<Rightarrow>
     bool \<times> FilesRecordUpdate \<times> Message list \<Rightarrow> 'b \<Rightarrow>
     (jsError + bool \<times> FilesRecordUpdate \<times> Message list) \<times> 'b" where
  "processMessages backend sanitizeToolCallId request t [] acc b = (Inr acc, b)"
| "processMessages backend sanitizeToolCallId request t (OtherMsg x # rest)
       (hasLargeResults, accumulatedFiles, processedMessages) b =
     processMessages backend sanitizeToolCallId request t rest
       (hasLargeResults, accumulatedFiles, processedMessages @ [OtherMsg x]) b"
| "processMessages backend sanitizeToolCallId request t (ToolMsg msg # rest)
       (hasLargeResults, accumulatedFiles, processedMessages) b =
     (case processToolMessage backend sanitizeToolCallId request msg t b of
        (Inl e, b') \<Rightarrow> (Inl e, b')
      | (Inr (message, None), b') \<Rightarrow>
          processMessages backend sanitizeToolCallId request t rest
            (hasLargeResults, accumulatedFiles, processedMessages @ [ToolMsg message]) b'
      | (Inr (message, Some fu), b') \<Rightarrow>
          processMessages backend sanitizeToolCallId request t rest
            (True, objectAssign accumulatedFiles fu, processedMessages @ [ToolMsg message]) b')"

definition wrapToolCall ::
    "int option \<Rightarrow> 'b Backend \<Rightarrow> (string \<Rightarrow> string) \<Rightarrow> ToolCallRequest \<Rightarrow> HandlerResult \<Rightarrow> 'b \<Rightarrow>
     (jsError + HandlerResult) \<times> 'b" where
  "wrapToolCall toolTokenLimitBeforeEvict backend sanitizeToolCallId request result b =
     (case toolTokenLimitBeforeEvict of
        None \<Rightarrow> (Inr result, b)
      | Some t \<Rightarrow>
          if t = 0 then (Inr result, b)
          else if excludedFromEviction request then (Inr result, b)
          else
            (case result of
               ResultMessage msg \<Rightarrow>
                 (case processToolMessage backend sanitizeToolCallId request msg t b of
                    (Inl e, b') \<Rightarrow> (Inl e, b')
                  | (Inr (message, Some fu), b') \<Rightarrow>
                      (Inr (ResultCommand
                          \<lparr>cmd_update = Some \<lparr>messages = Some [ToolMsg message],
                                              cmd_files = Some fu, other_keys = []\<rparr>,
                           goto = None\<rparr>), b')
                  | (Inr (message, None), b') \<Rightarrow> (Inr (ResultMessage message), b'))
             | ResultCommand cmd \<Rightarrow>
                 (case cmd_update cmd of
                    None \<Rightarrow> (Inr result, b)
                  | Some upd \<Rightarrow>
                      (case messages upd of
                         None \<Rightarrow> (Inr result, b)
                       | Some msgs \<Rightarrow>
                           (case processMessages backend sanitizeToolCallId request t msgs
                                   (False, (case cmd_files upd of None \<Rightarrow> [] | Some f \<Rightarrow> f), []) b of
                              (Inl e, b') \<Rightarrow> (Inl e, b')
                            | (Inr (hasLargeResults, accumulatedFiles, processedMessages), b') \<Rightarrow>
                                if hasLargeResults then
                                  (Inr (ResultCommand
                                      \<lparr>cmd_update = Some (upd\<lparr>messages := Some processedMessages,
                                                             cmd_files := Some accumulatedFiles\<rparr>),
                                       goto = None\<rparr>), b')
                                else (Inr result, b'))))
             | ResultOther _ \<Rightarrow> (Inr result, b)))"

section \<open>The memory loader (middleware/memory.ts)\<close>





section \<open>The skills loader (the skills middleware, src/unnamed/part_001)\<close>

text \<open>\<open>Map.set\<close> on a map kept in insertion order, keyed by the name of the skill.\<close>

definition setSkill :: "SkillMetadata \<Rightarrow> (string \<times> SkillMetadata) list \<Rightarrow> (string \<times> SkillMetadata) list" where
  "setSkill skill merged = AList.update (name skill) skill merged"

definition skillsMetadataReducer ::
    "SkillMetadata list option \<Rightarrow> SkillMetadata list option \<Rightarrow> SkillMetadata list" where
  "skillsMetadataReducer current update =
     (if update = None \<or> update = Some [] then (case current of None \<Rightarrow> [] | Some c \<Rightarrow> c)
      else if current = None \<or> current = Some [] then the update
      else map snd (fold setSkill (the update) (fold setSkill (the current) [])))"

text \<open>
  The name of a directory entry:
  \<open>info.path.replace(/[/\\]$/, "").split(/[/\\]/).pop() || ""\<close>.
\<close>

definition isSeparator :: "char \<Rightarrow> bool" where
  "isSeparator c = (c = CHR ''/'' \<or> c = CHR 0x5C)"

definition entryName :: "string \<Rightarrow> string" where
  "entryName p =
     (let stripped = (if p \<noteq> [] \<and> isSeparator (last p) then butlast p else p)
      in rev (takeWhile (\<lambda>c. \<not> isSeparator c) (rev stripped)))"

definition normalizePath :: "string \<Rightarrow> string" where
  "normalizePath sourcePath =
     (if sourcePath \<noteq> [] \<and> isSeparator (last sourcePath) then sourcePath
      else sourcePath @ ''/'')"

text \<open>
  \<open>parseSkillMetadataFromContent\<close> rests on the regular-expression engine and on the
  \<open>yaml\<close> package: it is a parameter \<open>parseSkill\<close> of the loader, from the content, the
  path of the manifest and the name of the directory to the metadata or \<open>null\<close>.

  The loop of \<open>listSkillsFromBackend\<close> over the entries (name and \<open>is_dir\<close>), with the
  skills collected so far.
\<close>

fun collectSkills ::
    "(string \<Rightarrow> string \<Rightarrow> string \<Rightarrow> SkillMetadata option) \<Rightarrow> 'b BackendProtocol \<Rightarrow> string \<Rightarrow>
     (string \<times> bool) list \<Rightarrow> SkillMetadata list \<Rightarrow> 'b \<Rightarrow> jsError + SkillMetadata list" where
  "collectSkills parseSkill backend normalizedPath [] skills b = Inr skills"
| "collectSkills parseSkill backend normalizedPath ((entry, isDirectory) # rest) skills b =
     (if \<not> isDirectory then collectSkills parseSkill backend normalizedPath rest skills b
      else
        (let skillMdPath = normalizedPath @ entry @ ''/SKILL.md'';
             continue = collectSkills parseSkill backend normalizedPath rest skills b;
             parsed = (\<lambda>text.
               case parseSkill text skillMdPath entry of
                 Some md \<Rightarrow> collectSkills parseSkill backend normalizedPath rest (skills @ [md]) b
               | None \<Rightarrow> continue)
         in case downloadFiles backend of
              Some download \<Rightarrow>
                (case download [skillMdPath] b of
                   Inl e \<Rightarrow> Inl e
                 | Inr results \<Rightarrow>
                     (case results of
                        [response] \<Rightarrow>
                          (if dl_error response \<noteq> None \<or> dl_content response = None then continue
                           else parsed (the (dl_content response)))
                      | _ \<Rightarrow> continue))
            | None \<Rightarrow>
                (case read backend skillMdPath None None b of
                   Inl e \<Rightarrow> Inl e
                 | Inr readResult \<Rightarrow>
                     if prefix ''Error:'' readResult then continue else parsed readResult)))"

definition listSkillsFromBackend ::
    "(string \<Rightarrow> string \<Rightarrow> string \<Rightarrow> SkillMetadata option) \<Rightarrow> 'b BackendProtocol \<Rightarrow> string \<Rightarrow> 'b \<Rightarrow>
     jsError + SkillMetadata list" where
  "listSkillsFromBackend parseSkill backend sourcePath b =
     (let normalizedPath = normalizePath sourcePath in
      case lsInfo backend normalizedPath b of
        Inl _ \<Rightarrow> Inr []
      | Inr fileInfos \<Rightarrow>
          collectSkills parseSkill backend normalizedPath
            (map (\<lambda>info. (entryName (info_path info), is_dir info = Some True)) fileInfos) [] b)"

text \<open>
  The body of the loop of \<open>beforeAgent\<close> over the sources: the skills of a source are set
  in the map in order; a source that throws is logged and adds nothing.
\<close>

definition loadSkillSource ::
    "(string \<Rightarrow> string \<Rightarrow> string \<Rightarrow> SkillMetadata option) \<Rightarrow> 'b BackendProtocol \<Rightarrow> 'b \<Rightarrow> string \<Rightarrow>
     (string \<times> SkillMetadata) list \<times> (string \<times> jsError) list \<Rightarrow>
     (string \<times> SkillMetadata) list \<times> (string \<times> jsError) list" where
  "loadSkillSource parseSkill resolvedBackend b sourcePath acc =
     (case acc of (allSkills, logged) \<Rightarrow>
        (case listSkillsFromBackend parseSkill resolvedBackend sourcePath b of
           Inl e \<Rightarrow> (allSkills, logged @ [(sourcePath, e)])
         | Inr skills \<Rightarrow> (fold setSkill skills allSkills, logged)))"

text \<open>
  \<open>beforeAgent\<close> of the skills middleware, with the closure variable \<open>loadedSkills\<close> as
  an argument: it returns the state update (\<open>undefined\<close> is \<^const>\<open>None\<close>), the new value
  of \<open>loadedSkills\<close> and the lines logged.
\<close>

definition skillsBeforeAgent ::
    "(string \<Rightarrow> string \<Rightarrow> string \<Rightarrow> SkillMetadata option) \<Rightarrow> 'b Backend \<Rightarrow> string list \<Rightarrow>
     SkillMetadata list \<Rightarrow> AgentState \<Rightarrow> 'b \<Rightarrow>
     SkillMetadata list option \<times> SkillMetadata list \<times> (string \<times> jsError) list" where
  "skillsBeforeAgent parseSkill backend sources loadedSkills st b =
     (if loadedSkills \<noteq> [] then (None, loadedSkills, [])
      else if skillsMetadata st \<noteq> None \<and> skillsMetadata st \<noteq> Some []
      then (None, the (skillsMetadata st), [])
      else
        (let resolvedBackend = getBackend backend \<lparr>state = st, store = None\<rparr>;
             r = fold (loadSkillSource parseSkill resolvedBackend b) sources ([], []);
             loaded = map snd (fst r)
         in (Some loaded, loaded, snd r)))"

text \<open>The skills that a source adds: none when listing it throws.\<close>

definition sourceSkills ::
    "(string \<Rightarrow> string \<Rightarrow> string \<Rightarrow> SkillMetadata option) \<Rightarrow> 'b BackendProtocol \<Rightarrow> 'b \<Rightarrow> string \<Rightarrow>
     SkillMetadata list" where
  "sourceSkills parseSkill resolvedBackend b sourcePath =
     (case listSkillsFromBackend parseSkill resolvedBackend sourcePath b of
        Inl e \<Rightarrow> []
      | Inr skills \<Rightarrow> skills)"

section \<open>Example values\<close>

text \<open>A request of the tool \<open>toolName\<close> with the call id \<open>toolCallId\<close>, and a text message.\<close>

definition requestOf :: "string \<Rightarrow> string \<Rightarrow> ToolCallRequest" where
  "requestOf toolName toolCallId =
     \<lparr>toolCall = Some \<lparr>call_name = Some toolName, call_id = Some toolCallId\<rparr>,
      req_state = None, req_store = None\<rparr>"

definition textMessage :: "string \<Rightarrow> string \<Rightarrow> string \<Rightarrow> ToolMessage" where
  "textMessage toolName toolCallId text =
     \<lparr>content = Text text, tool_call_id = toolCallId, msg_name = Some toolName\<rparr>"

text \<open>A line of 80000 and a line of 100000 characters.\<close>

definition line80000 :: string where
  "line80000 = replicate 80000 CHR ''x''"

definition line100000 :: string where
  "line100000 = replicate 100000 CHR ''x''"

text \<open>
  A backend that records the calls of \<open>write\<close>: its storage is the list of the paths and
  texts written so far, every write succeeds and reports the file as a files update.
\<close>

definition recordingBackend :: "(string \<times> string) list BackendProtocol" where
  "recordingBackend =
     \<lparr>lsInfo = (\<lambda>p b. Inr []),
      read = (\<lambda>p off lim b. Inr []),
      writeFile = (\<lambda>p text b.
        (Inr \<lparr>error = None,
              filesUpdate = Some [(p, Some \<lparr>file_content = splitLines text,
                                            created_at = [], modified_at = []\<rparr>)]\<rparr>,
         b @ [(p, text)])),
      downloadFiles = None\<rparr>"

text \<open>A backend whose \<open>read\<close> returns a fixed text.\<close>

definition fixedReadBackend :: "string \<Rightarrow> unit BackendProtocol" where
  "fixedReadBackend text =
     \<lparr>lsInfo = (\<lambda>p b. Inr []),
      read = (\<lambda>p off lim b. Inr text),
      writeFile = (\<lambda>p t b. (Inr \<lparr>error = None, filesUpdate = None\<rparr>, b)),
      downloadFiles = None\<rparr>"


text \<open>
  A backend that records the calls of \<open>write\<close> like the first one, and reports no files
  update: its files are not kept in the state of the agent.
\<close>

definition quietBackend :: "(string \<times> string) list BackendProtocol" where
  "quietBackend =
     \<lparr>lsInfo = (\<lambda>p b. Inr []),
      read = (\<lambda>p off lim b. Inr []),
      writeFile = (\<lambda>p text b. (Inr \<lparr>error = None, filesUpdate = None\<rparr>, b @ [(p, text)])),
      downloadFiles = None\<rparr>"

text \<open>
  A skill with a name, a description and a path; a parser that takes the directory name as the
  name and the content as the description; a backend with the sources \<open>/skills/base\<close> and
  \<open>/skills/user\<close>, each holding a skill \<open>code-review\<close>.
\<close>

definition skillOf :: "string \<Rightarrow> string \<Rightarrow> string \<Rightarrow> SkillMetadata" where
  "skillOf n d p =
     \<lparr>name = n, description = d, path = p, license = None, compatibility = None,
      metadata = [], allowedTools = []\<rparr>"

definition directoryParser :: "string \<Rightarrow> string \<Rightarrow> string \<Rightarrow> SkillMetadata option" where
  "directoryParser text skillPath directoryName = Some (skillOf directoryName text skillPath)"

definition layeredBackend :: "unit BackendProtocol" where
  "layeredBackend =
     \<lparr>lsInfo = (\<lambda>p b.
        if p = ''/skills/base/''
        then Inr [\<lparr>info_path = ''/skills/base/code-review'', is_dir = Some True\<rparr>]
        else if p = ''/skills/user/''
        then Inr [\<lparr>info_path = ''/skills/user/code-review'', is_dir = Some True\<rparr>]
        else Inr []),
      read = (\<lambda>p off lim b. Inr []),
      writeFile = (\<lambda>p t b. (Inr \<lparr>error = None, filesUpdate = None\<rparr>, b)),
      downloadFiles = Some (\<lambda>paths b. Inr (map (\<lambda>p.
        if p = ''/skills/base/code-review/SKILL.md''
        then \<lparr>dl_content = Some ''Review code, base rules'', dl_error = None\<rparr>
        else if p = ''/skills/user/code-review/SKILL.md''
        then \<lparr>dl_content = Some ''Review code, user rules'', dl_error = None\<rparr>
        else \<lparr>dl_content = None, dl_error = Some ''file_not_found''\<rparr>) paths))\<rparr>"


definition fileOf :: "string \<Rightarrow> FileData" where
  "fileOf text = \<lparr>file_content = [text], created_at = ''2026-01-01'', modified_at = ''2026-01-02''\<rparr>"

section \<open>Properties of the reducer\<close>

lemma set_insertOwn: "set (insertOwn k v obj) = insert (k, v) (set obj)"
  by (induction obj) auto

lemma map_of_insertOwn:
  "k \<notin> fst ` set obj \<Longrightarrow> map_of (insertOwn k v obj) k' = (if k' = k then Some v else map_of obj k')"
  by (induction obj) auto

lemma insertOwn_append:
  "\<forall>k' \<in> fst ` set obj. ownKeyBefore k' k \<Longrightarrow> insertOwn k v obj = obj @ [(k, v)]"
  by (induction obj) auto

lemma map_of_jsAssign:
  "map_of (jsAssign k v obj) k' =
     (if k' = k \<and> (k \<noteq> ''__proto__'' \<or> k \<in> fst ` set obj) then Some v else map_of obj k')"
  by (auto simp: jsAssign_def update_conv' map_of_insertOwn map_of_eq_None_iff)

lemma keys_jsAssign:
  "fst ` set (jsAssign k v obj) =
     (if k = ''__proto__'' \<and> k \<notin> fst ` set obj then fst ` set obj else insert k (fst ` set obj))"
  by (auto simp: jsAssign_def set_insertOwn dom_update image_iff)

lemma jsAssign_same: "map_of obj k = Some v \<Longrightarrow> jsAssign k v obj = obj"
proof -
  assume a: "map_of obj k = Some v"
  then have "k \<in> fst ` set obj" by (metis map_of_eq_None_iff option.distinct(1))
  with a show ?thesis by (simp add: jsAssign_def update_triv)
qed

lemma jsAssign_proto: "''__proto__'' \<notin> fst ` set obj \<Longrightarrow> jsAssign ''__proto__'' v obj = obj"
  by (simp add: jsAssign_def)

lemma map_of_seedEntry_other:
  "k \<noteq> fst e \<Longrightarrow> map_of (seedEntry e r) k = map_of r k"
  by (cases e) (simp add: seedEntry_def map_of_jsAssign split: option.splits)

lemma map_of_mergeEntry_other:
  "k \<noteq> fst e \<Longrightarrow> map_of (mergeEntry e r) k = map_of r k"
  by (cases e) (simp add: mergeEntry_def map_of_jsAssign delete_conv' split: option.splits)

lemma map_of_mergeEntry_same:
  "map_of (mergeEntry (k, v) r) k =
     (case v of None \<Rightarrow> None
      | Some d \<Rightarrow> if k = ''__proto__'' \<and> map_of r k = None then None else Some d)"
  by (auto simp: mergeEntry_def map_of_jsAssign delete_conv' map_of_eq_None_iff split: option.splits)

lemma map_of_seedEntry_same:
  "map_of r k = None \<Longrightarrow>
   map_of (seedEntry (k, v) r) k =
     (case v of None \<Rightarrow> None | Some d \<Rightarrow> if k = ''__proto__'' then None else Some d)"
  by (auto simp: seedEntry_def map_of_jsAssign map_of_eq_None_iff split: option.splits)

lemma fold_seedEntry_other:
  "k \<notin> fst ` set u \<Longrightarrow> map_of (fold seedEntry u r) k = map_of r k"
proof (induction u arbitrary: r)
  case Nil
  show ?case by simp
next
  case (Cons e u)
  from Cons.prems have "k \<noteq> fst e" and "k \<notin> fst ` set u" by auto
  with Cons.IH [of "seedEntry e r"] show ?case
    by (simp add: map_of_seedEntry_other)
qed

lemma fold_mergeEntry_other:
  "k \<notin> fst ` set u \<Longrightarrow> map_of (fold mergeEntry u r) k = map_of r k"
proof (induction u arbitrary: r)
  case Nil
  show ?case by simp
next
  case (Cons e u)
  from Cons.prems have "k \<noteq> fst e" and "k \<notin> fst ` set u" by auto
  with Cons.IH [of "mergeEntry e r"] show ?case
    by (simp add: map_of_mergeEntry_other)
qed

lemma fold_mergeEntry_entry:
  "distinct (map fst u) \<Longrightarrow> (k, v) \<in> set u \<Longrightarrow>
   map_of (fold mergeEntry u r) k =
     (case v of None \<Rightarrow> None
      | Some d \<Rightarrow> if k = ''__proto__'' \<and> map_of r k = None then None else Some d)"
proof (induction u arbitrary: r)
  case Nil
  then show ?case by simp
next
  case (Cons e u)
  show ?case
  proof (cases "e = (k, v)")
    case True
    with Cons.prems have "k \<notin> fst ` set u" by auto
    then have "map_of (fold mergeEntry u (mergeEntry e r)) k = map_of (mergeEntry e r) k"
      by (rule fold_mergeEntry_other)
    with True show ?thesis by (simp add: map_of_mergeEntry_same)
  next
    case False
    with Cons.prems have in_u: "(k, v) \<in> set u" and d: "distinct (map fst u)"
      and ne: "k \<noteq> fst e"
      by (auto simp: rev_image_eqI)
    from ne have "map_of (mergeEntry e r) k = map_of r k"
      by (rule map_of_mergeEntry_other)
    with Cons.IH [OF d in_u, of "mergeEntry e r"] show ?thesis
      by (simp split: option.splits)
  qed
qed

lemma fold_seedEntry_entry:
  "distinct (map fst u) \<Longrightarrow> (k, v) \<in> set u \<Longrightarrow> map_of r k = None \<Longrightarrow>
   map_of (fold seedEntry u r) k =
     (case v of None \<Rightarrow> None | Some d \<Rightarrow> if k = ''__proto__'' then None else Some d)"
proof (induction u arbitrary: r)
  case Nil
  then show ?case by simp
next
  case (Cons e u)
  show ?case
  proof (cases "e = (k, v)")
    case True
    with Cons.prems have "k \<notin> fst ` set u" by auto
    then have "map_of (fold seedEntry u (seedEntry e r)) k = map_of (seedEntry e r) k"
      by (rule fold_seedEntry_other)
    with True Cons.prems(3) show ?thesis by (simp add: map_of_seedEntry_same)
  next
    case False
    with Cons.prems have in_u: "(k, v) \<in> set u" and d: "distinct (map fst u)"
      and ne: "k \<noteq> fst e"
      by (auto simp: rev_image_eqI)
    from ne Cons.prems(3) have "map_of (seedEntry e r) k = None"
      by (simp add: map_of_seedEntry_other)
    with Cons.IH [of "seedEntry e r"] in_u d show ?thesis by simp
  qed
qed

lemma sorted_wrt_snoc_keys:
  "sorted_wrt P (xs @ y # ys) \<Longrightarrow> \<forall>x \<in> set xs. P x y"
  by (simp add: sorted_wrt_append)

lemma fold_seedEntry_append:
  "distinct (map fst u) \<Longrightarrow> fst ` set r \<inter> fst ` set u = {} \<Longrightarrow>
   ''__proto__'' \<notin> fst ` set u \<Longrightarrow> sorted_wrt ownKeyBefore (map fst r @ map fst u) \<Longrightarrow>
   fold seedEntry u r = r @ dropNullEntries u"
proof (induction u arbitrary: r)
  case Nil
  show ?case by (simp add: dropNullEntries_def)
next
  case (Cons e u)
  obtain k v where e: "e = (k, v)" by (cases e)
  from Cons.prems e have fresh: "k \<notin> fst ` set r" and ku: "k \<notin> fst ` set u"
    and d: "distinct (map fst u)" and disj: "fst ` set r \<inter> fst ` set u = {}"
    and np: "k \<noteq> ''__proto__''" and pu: "''__proto__'' \<notin> fst ` set u"
    by auto
  from Cons.prems(4) e have srt: "sorted_wrt ownKeyBefore (map fst r @ k # map fst u)" by simp
  show ?case
  proof (cases v)
    case None
    from srt have "sorted_wrt ownKeyBefore (map fst r @ map fst u)"
      by (auto simp: sorted_wrt_append)
    with e None Cons.IH [OF d disj pu] show ?thesis
      by (simp add: seedEntry_def dropNullEntries_def)
  next
    case (Some x)
    from srt have "\<forall>k' \<in> fst ` set r. ownKeyBefore k' k"
      by (auto simp: sorted_wrt_append)
    then have "insertOwn k x r = r @ [(k, x)]" by (rule insertOwn_append)
    then have step: "seedEntry e r = r @ [(k, x)]"
      using e Some fresh np by (simp add: seedEntry_def jsAssign_def)
    have disj': "fst ` set (r @ [(k, x)]) \<inter> fst ` set u = {}"
      using disj ku by auto
    from srt have "sorted_wrt ownKeyBefore (map fst (r @ [(k, x)]) @ map fst u)" by simp
    from Cons.IH [OF d disj' pu this] step e Some show ?thesis
      by (simp add: dropNullEntries_def)
  qed
qed

text \<open>
  Applying an update to a record in which every entry of the update is already settled
  changes nothing, not even the order of the keys.
\<close>

lemma fold_mergeEntry_fixed:
  "\<forall>e \<in> set u. mergeEntry e r = r \<Longrightarrow> fold mergeEntry u r = r"
  by (induction u) simp_all

lemma mergeEntry_settled:
  "map_of r k = (case v of None \<Rightarrow> None | Some d \<Rightarrow> if k = ''__proto__'' \<and> p then None else Some d)
   \<Longrightarrow> mergeEntry (k, v) r = r"
proof (cases v)
  case None
  assume "map_of r k = (case v of None \<Rightarrow> None | Some d \<Rightarrow> if k = ''__proto__'' \<and> p then None else Some d)"
  with None have "k \<notin> fst ` set r" by (simp add: map_of_eq_None_iff)
  with None show ?thesis by (simp add: mergeEntry_def)
next
  case (Some d)
  assume a: "map_of r k = (case v of None \<Rightarrow> None | Some d \<Rightarrow> if k = ''__proto__'' \<and> p then None else Some d)"
  show ?thesis
  proof (cases "k = ''__proto__'' \<and> p")
    case True
    with a Some have "''__proto__'' \<notin> fst ` set r" by (simp add: map_of_eq_None_iff)
    with True Some show ?thesis by (simp add: mergeEntry_def jsAssign_proto)
  next
    case False
    with a Some have "map_of r k = Some d" by auto
    with Some show ?thesis by (simp add: mergeEntry_def jsAssign_same)
  qed
qed

lemma fileDataReducer_entry:
  "distinct (map fst u) \<Longrightarrow> (k, v) \<in> set u \<Longrightarrow>
   map_of (fileDataReducer C (Some u)) k =
     (case v of None \<Rightarrow> None
      | Some d \<Rightarrow>
          if k = ''__proto__'' \<and> (case C of None \<Rightarrow> True | Some c \<Rightarrow> map_of c k = None)
          then None else Some d)"
  by (cases C)
    (simp_all add: fileDataReducer_def fold_seedEntry_entry fold_mergeEntry_entry
       split: option.splits)

lemma fileDataReducer_other:
  "k \<notin> fst ` set u \<Longrightarrow>
   map_of (fileDataReducer C (Some u)) k = (case C of None \<Rightarrow> None | Some c \<Rightarrow> map_of c k)"
  by (cases C) (simp_all add: fileDataReducer_def fold_seedEntry_other fold_mergeEntry_other)

text \<open>
  C3. The merge is idempotent: applying \<open>fileDataReducer\<close> a second time with the same
  update leaves the result unchanged.
\<close>

theorem fileDataReducer_idempotent:
  "(\<forall>u. U = Some u \<longrightarrow> isObject u) \<Longrightarrow>
   fileDataReducer (Some (fileDataReducer C U)) U = fileDataReducer C U"
proof (cases U)
  case None
  then show ?thesis by (simp add: fileDataReducer_def)
next
  case (Some u)
  assume "\<forall>u. U = Some u \<longrightarrow> isObject u"
  with Some have d: "distinct (map fst u)" by (simp add: isObject_def)
  have "\<forall>e \<in> set u. mergeEntry e (fileDataReducer C (Some u)) = fileDataReducer C (Some u)"
  proof
    fix e assume e: "e \<in> set u"
    obtain k v where kv: "e = (k, v)" by (cases e)
    from fileDataReducer_entry [OF d, of k v C] e kv
    have "mergeEntry (k, v) (fileDataReducer C (Some u)) = fileDataReducer C (Some u)"
      by (intro mergeEntry_settled) simp
    with kv show "mergeEntry e (fileDataReducer C (Some u)) = fileDataReducer C (Some u)" by simp
  qed
  then have "fold mergeEntry u (fileDataReducer C (Some u)) = fileDataReducer C (Some u)"
    by (rule fold_mergeEntry_fixed)
  with Some show ?thesis by (simp add: fileDataReducer_def)
qed

theorem fileDataReducer_idempotent_witness:
  "isObject [(''/a'', None), (''/b'', Some (fileOf ''new''))] \<and>
   fileDataReducer
     (Some (fileDataReducer (Some [(''/a'', fileOf ''old''), (''/c'', fileOf ''old'')])
              (Some [(''/a'', None), (''/b'', Some (fileOf ''new''))])))
     (Some [(''/a'', None), (''/b'', Some (fileOf ''new''))])
   = fileDataReducer (Some [(''/a'', fileOf ''old''), (''/c'', fileOf ''old'')])
       (Some [(''/a'', None), (''/b'', Some (fileOf ''new''))]) \<and>
   fileDataReducer (Some [(''/a'', fileOf ''old''), (''/c'', fileOf ''old'')])
       (Some [(''/a'', None), (''/b'', Some (fileOf ''new''))])
   = [(''/c'', fileOf ''old''), (''/b'', fileOf ''new'')]"
proof -
  let ?U = "[(''/a'', None), (''/b'', Some (fileOf ''new''))]"
  let ?C = "Some [(''/a'', fileOf ''old''), (''/c'', fileOf ''old'')]"
  have obj: "isObject ?U" by (simp add: isObject_def)
  then have "\<forall>u. Some ?U = Some u \<longrightarrow> isObject u" by simp
  from fileDataReducer_idempotent [OF this, of ?C]
  have idem: "fileDataReducer (Some (fileDataReducer ?C (Some ?U))) (Some ?U)
      = fileDataReducer ?C (Some ?U)" .
  have val: "fileDataReducer ?C (Some ?U) = [(''/c'', fileOf ''old''), (''/b'', fileOf ''new'')]"
    by code_simp
  from obj idem val show ?thesis by (intro conjI)
qed


text \<open>
  C1. For every files map \<open>C\<close> (possibly absent) and update \<open>U\<close>: every key of \<open>U\<close> other
  than \<open>__proto__\<close> has no entry in the merge when \<open>U\<close> maps it to \<open>null\<close> and exactly the
  value of \<open>U\<close> otherwise, and a \<open>null\<close> removes the key \<open>__proto__\<close> as well; every key
  not in \<open>U\<close> has the value it has in \<open>C\<close>; an absent update returns \<open>C\<close> unchanged, or the
  empty map when \<open>C\<close> is absent too; and with \<open>C\<close> absent and no key \<open>__proto__\<close> in \<open>U\<close>
  the result is \<open>U\<close> with its \<open>null\<close>-valued entries dropped, in the order of \<open>U\<close>.
\<close>

theorem fileDataReducer_merge:
  "isObject U \<Longrightarrow>
     (\<forall>k v. (k, v) \<in> set U \<and> (k \<noteq> ''__proto__'' \<or> v = None) \<longrightarrow>
        map_of (fileDataReducer C (Some U)) k = v) \<and>
     (\<forall>k. k \<notin> fst ` set U \<longrightarrow>
        map_of (fileDataReducer C (Some U)) k = (case C of None \<Rightarrow> None | Some c \<Rightarrow> map_of c k)) \<and>
     fileDataReducer C None = (case C of None \<Rightarrow> [] | Some c \<Rightarrow> c) \<and>
     (''__proto__'' \<notin> fst ` set U \<and> ownKeyOrder U \<longrightarrow>
        fileDataReducer None (Some U) = dropNullEntries U)"
proof -
  assume "isObject U"
  then have d: "distinct (map fst U)" by (simp add: isObject_def)
  have a: "\<forall>k v. (k, v) \<in> set U \<and> (k \<noteq> ''__proto__'' \<or> v = None) \<longrightarrow>
      map_of (fileDataReducer C (Some U)) k = v"
  proof (intro allI impI)
    fix k v assume kv: "(k, v) \<in> set U \<and> (k \<noteq> ''__proto__'' \<or> v = None)"
    with fileDataReducer_entry [OF d, of k v C]
    show "map_of (fileDataReducer C (Some U)) k = v"
      by (auto split: option.splits)
  qed
  have b: "\<forall>k. k \<notin> fst ` set U \<longrightarrow>
      map_of (fileDataReducer C (Some U)) k = (case C of None \<Rightarrow> None | Some c \<Rightarrow> map_of c k)"
    by (simp add: fileDataReducer_other)
  have c: "fileDataReducer C None = (case C of None \<Rightarrow> [] | Some c \<Rightarrow> c)"
    by (simp add: fileDataReducer_def)
  have e: "''__proto__'' \<notin> fst ` set U \<and> ownKeyOrder U \<longrightarrow>
      fileDataReducer None (Some U) = dropNullEntries U"
  proof
    assume h: "''__proto__'' \<notin> fst ` set U \<and> ownKeyOrder U"
    then have "sorted_wrt ownKeyBefore (map fst ([] :: FilesRecord) @ map fst U)"
      by (simp add: ownKeyOrder_def)
    with d h have "fold seedEntry U [] = [] @ dropNullEntries U"
      by (intro fold_seedEntry_append) simp_all
    then show "fileDataReducer None (Some U) = dropNullEntries U"
      by (simp add: fileDataReducer_def)
  qed
  from a b c e show ?thesis by (intro conjI)
qed

text \<open>
  An update with an array index among its keys, and its merge into a map of two files: the
  new key \<open>7\<close> is listed before the files that were there, the new key \<open>/b\<close> after them.
\<close>

lemma example_update_object:
  "isObject [(''7'', Some (fileOf ''seven'')), (''/a'', None), (''/b'', Some (fileOf ''new''))] \<and>
   ownKeyOrder [(''7'', Some (fileOf ''seven'')), (''/a'', None), (''/b'', Some (fileOf ''new''))]"
  by code_simp

lemma example_merge:
  "fileDataReducer (Some [(''/a'', fileOf ''old''), (''/c'', fileOf ''old'')])
     (Some [(''7'', Some (fileOf ''seven'')), (''/a'', None), (''/b'', Some (fileOf ''new''))])
   = [(''7'', fileOf ''seven''), (''/c'', fileOf ''old''), (''/b'', fileOf ''new'')]"
  by code_simp

theorem fileDataReducer_merge_witness:
  "isObject [(''7'', Some (fileOf ''seven'')), (''/a'', None), (''/b'', Some (fileOf ''new''))] \<and>
   map_of (fileDataReducer (Some [(''/a'', fileOf ''old''), (''/c'', fileOf ''old'')])
             (Some [(''7'', Some (fileOf ''seven'')), (''/a'', None), (''/b'', Some (fileOf ''new''))]))
     ''/a'' = None \<and>
   map_of (fileDataReducer (Some [(''/a'', fileOf ''old''), (''/c'', fileOf ''old'')])
             (Some [(''7'', Some (fileOf ''seven'')), (''/a'', None), (''/b'', Some (fileOf ''new''))]))
     ''/b'' = Some (fileOf ''new'') \<and>
   map_of (fileDataReducer (Some [(''/a'', fileOf ''old''), (''/c'', fileOf ''old'')])
             (Some [(''7'', Some (fileOf ''seven'')), (''/a'', None), (''/b'', Some (fileOf ''new''))]))
     ''/c'' = Some (fileOf ''old'') \<and>
   fileDataReducer None
     (Some [(''7'', Some (fileOf ''seven'')), (''/a'', None), (''/b'', Some (fileOf ''new''))])
     = [(''7'', fileOf ''seven''), (''/b'', fileOf ''new'')]"
proof -
  let ?U = "[(''7'', Some (fileOf ''seven'')), (''/a'', None), (''/b'', Some (fileOf ''new''))]"
  let ?C = "Some [(''/a'', fileOf ''old''), (''/c'', fileOf ''old'')]"
  from example_update_object have obj: "isObject ?U" and ord: "ownKeyOrder ?U" by simp_all
  note m = fileDataReducer_merge [OF obj]
  from m [of ?C, THEN conjunct1, rule_format, of "''/a''" None]
  have a: "map_of (fileDataReducer ?C (Some ?U)) ''/a'' = None" by simp
  from m [of ?C, THEN conjunct1, rule_format, of "''/b''" "Some (fileOf ''new'')"]
  have b: "map_of (fileDataReducer ?C (Some ?U)) ''/b'' = Some (fileOf ''new'')" by simp
  from m [of ?C, THEN conjunct2, THEN conjunct1, rule_format, of "''/c''"]
  have c: "map_of (fileDataReducer ?C (Some ?U)) ''/c'' = Some (fileOf ''old'')" by simp
  have "''__proto__'' \<notin> fst ` set ?U" by simp
  with ord m [of None, THEN conjunct2, THEN conjunct2, THEN conjunct2]
  have "fileDataReducer None (Some ?U) = dropNullEntries ?U" by (simp only: simp_thms)
  then have d: "fileDataReducer None (Some ?U) = [(''7'', fileOf ''seven''), (''/b'', fileOf ''new'')]"
    by (simp add: dropNullEntries_def)
  from obj a b c d show ?thesis by (intro conjI)
qed

text \<open>
  An update that maps the key \<open>__proto__\<close> to a file record: the assignment of the reducer
  creates no entry, whether the current map is absent or present, so the result is not
  the update with its \<open>null\<close>-valued entries dropped.
\<close>

theorem fileDataReducer_proto_counterexample:
  "isObject [(''__proto__'', Some (fileOf ''x''))] \<and>
   (''__proto__'', Some (fileOf ''x'')) \<in> set [(''__proto__'', Some (fileOf ''x''))] \<and>
   map_of (fileDataReducer None (Some [(''__proto__'', Some (fileOf ''x''))])) ''__proto__'' = None \<and>
   map_of (fileDataReducer (Some [(''/a'', fileOf ''old'')])
             (Some [(''__proto__'', Some (fileOf ''x''))])) ''__proto__'' = None \<and>
   fileDataReducer None (Some [(''__proto__'', Some (fileOf ''x''))]) = [] \<and>
   dropNullEntries [(''__proto__'', Some (fileOf ''x''))] = [(''__proto__'', fileOf ''x'')]"
  by (simp add: isObject_def fileDataReducer_def seedEntry_def mergeEntry_def jsAssign_def
        dropNullEntries_def)


section \<open>Lines, joins and numbers\<close>

lemma splitLines_nonempty: "splitLines s \<noteq> []"
  by (induction s) (auto split: list.splits)

lemma splitLines_Cons_other:
  "c \<noteq> CHR 0x0A \<Longrightarrow> splitLines (c # cs) = (c # hd (splitLines cs)) # tl (splitLines cs)"
  using splitLines_nonempty [of cs] by (cases "splitLines cs") simp_all

lemma splitLines_no_nl: "l \<in> set (splitLines s) \<Longrightarrow> CHR 0x0A \<notin> set l"
proof (induction s arbitrary: l)
  case Nil
  then show ?case by simp
next
  case (Cons c cs)
  show ?case
  proof (cases "c = CHR 0x0A")
    case True
    with Cons show ?thesis by auto
  next
    case False
    obtain x xs where sp: "splitLines cs = x # xs"
      using splitLines_nonempty [of cs] by (cases "splitLines cs") auto
    with False Cons.prems have "l = c # x \<or> l \<in> set xs" by simp
    with Cons.IH sp False show ?thesis by auto
  qed
qed

lemma splitLines_append_nl:
  "splitLines (a @ CHR 0x0A # b) = splitLines a @ splitLines b"
proof (induction a)
  case Nil
  show ?case by simp
next
  case (Cons c cs)
  show ?case
  proof (cases "c = CHR 0x0A")
    case True
    with Cons show ?thesis by simp
  next
    case False
    obtain x xs where sp: "splitLines cs = x # xs"
      using splitLines_nonempty [of cs] by (cases "splitLines cs") auto
    with False Cons show ?thesis by simp
  qed
qed

lemma splitLines_single: "CHR 0x0A \<notin> set s \<Longrightarrow> splitLines s = [s]"
  by (induction s) auto

lemma splitLines_jsJoin:
  "ls \<noteq> [] \<Longrightarrow> \<forall>l \<in> set ls. CHR 0x0A \<notin> set l \<Longrightarrow> splitLines (jsJoin [CHR 0x0A] ls) = ls"
proof (induction ls)
  case Nil
  then show ?case by simp
next
  case (Cons x xs)
  show ?case
  proof (cases xs)
    case Nil
    with Cons.prems show ?thesis by (simp add: splitLines_single)
  next
    case (Cons y ys)
    with Cons.IH Cons.prems have "splitLines (jsJoin [CHR 0x0A] xs) = xs" by simp
    with Cons Cons.prems show ?thesis
      by (simp add: splitLines_append_nl splitLines_single)
  qed
qed

lemma length_splitLines:
  "length (splitLines s) = Suc (length (filter (\<lambda>c. c = CHR 0x0A) s))"
  by (induction s) (auto split: list.splits simp: splitLines_nonempty)

lemma length_splitLines_take: "length (splitLines (take m s)) \<le> length (splitLines s)"
proof -
  have "length (filter (\<lambda>c. c = CHR 0x0A) (take m s)) \<le> length (filter (\<lambda>c. c = CHR 0x0A) s)"
    by (metis append_take_drop_id filter_append length_append le_add1)
  then show ?thesis by (simp add: length_splitLines)
qed

section \<open>Properties of the content preview\<close>

lemma digitChar_digit: "d < 10 \<Longrightarrow> digitChar d \<in> set ''0123456789''"
  unfolding digitChar_def by (rule nth_mem) simp

lemma showNat_digits: "set (showNat n) \<subseteq> set ''0123456789''"
proof (induction n rule: showNat.induct)
  case (1 n)
  show ?case
  proof (cases "n < 10")
    case True
    then show ?thesis using digitChar_digit [of n] by (subst showNat.simps) simp
  next
    case False
    have "n mod 10 < 10" by simp
    from digitChar_digit [OF this] 1 False show ?thesis
      by (subst showNat.simps) simp
  qed
qed

lemma showNat_no_nl: "CHR 0x0A \<notin> set (showNat n)"
  using showNat_digits [of n] by auto

lemma showInt_no_nl: "CHR 0x0A \<notin> set (showInt i)"
  by (simp add: showInt_def showNat_no_nl)

lemma showInt_int: "showInt (int k) = showNat k"
  by (simp add: showInt_def)

lemma numberedLine_no_nl:
  "CHR 0x0A \<notin> set label \<Longrightarrow> CHR 0x0A \<notin> set line \<Longrightarrow> CHR 0x0A \<notin> set (numberedLine label line)"
  by (simp add: numberedLine_def padStart_def)

lemma map_enumerate_nth:
  "map (\<lambda>(i, x). f i x) (enumerate 0 xs) = map (\<lambda>i. f i (xs ! i)) [0..<length xs]"
  by (rule nth_equalityI) (simp_all add: nth_enumerate_eq)

lemma concat_map_single:
  "\<forall>x \<in> set zs. g x = [h x] \<Longrightarrow> concat (map g zs) = map h zs"
  by (induction zs) simp_all

lemma formatLines_short:
  assumes "\<forall>l \<in> set xs. length l \<le> 10000"
  shows "concat (map (\<lambda>(i, line). formatLine (s + int i) line) (enumerate 0 xs))
         = map (\<lambda>i. numberedLine (showInt (s + int i)) (xs ! i)) [0..<length xs]"
proof -
  have "\<forall>p \<in> set (enumerate 0 xs).
          (\<lambda>(i, line). formatLine (s + int i) line) p
          = [(\<lambda>(i, line). numberedLine (showInt (s + int i)) line) p]"
    using assms by (auto simp: formatLine_def in_set_enumerate_eq)
  then have "concat (map (\<lambda>(i, line). formatLine (s + int i) line) (enumerate 0 xs))
        = map (\<lambda>(i, line). numberedLine (showInt (s + int i)) line) (enumerate 0 xs)"
    by (rule concat_map_single)
  then show ?thesis by (simp add: map_enumerate_nth)
qed

lemma format_short_lines:
  assumes "xs \<noteq> []" and "\<forall>l \<in> set xs. length l \<le> 10000 \<and> CHR 0x0A \<notin> set l"
  shows "splitLines (formatContentWithLineNumbers xs s)
         = map (\<lambda>i. numberedLine (showInt (s + int i)) (xs ! i)) [0..<length xs]"
proof -
  let ?out = "map (\<lambda>i. numberedLine (showInt (s + int i)) (xs ! i)) [0..<length xs]"
  have eq: "formatContentWithLineNumbers xs s = jsJoin [CHR 0x0A] ?out"
    using assms(2) by (simp add: formatContentWithLineNumbers_def formatLines_short)
  have ne: "?out \<noteq> []" using assms(1) by simp
  have "\<forall>l \<in> set ?out. CHR 0x0A \<notin> set l"
  proof
    fix l assume "l \<in> set ?out"
    then obtain i where i: "i < length xs" and l: "l = numberedLine (showInt (s + int i)) (xs ! i)"
      by auto
    from i assms(2) have "CHR 0x0A \<notin> set (xs ! i)" by simp
    with l show "CHR 0x0A \<notin> set l" by (simp add: numberedLine_no_nl showInt_no_nl)
  qed
  with ne eq show ?thesis by (simp add: splitLines_jsJoin)
qed

text \<open>The lines of a preview are cut to 1000 characters and hold no line feed.\<close>

lemma preview_lines_ok:
  "\<forall>l \<in> set (map (jsSubstring0 1000) (take k (drop j (splitLines c)))).
      length l \<le> 10000 \<and> CHR 0x0A \<notin> set l"
proof
  fix l assume "l \<in> set (map (jsSubstring0 1000) (take k (drop j (splitLines c))))"
  then obtain x where x: "x \<in> set (splitLines c)" and l: "l = take 1000 x"
    by (auto simp: jsSubstring0_def dest: in_set_takeD in_set_dropD)
  from x have "CHR 0x0A \<notin> set x" by (rule splitLines_no_nl)
  with l show "length l \<le> 10000 \<and> CHR 0x0A \<notin> set l"
    by (auto dest: in_set_takeD)
qed

lemma preview_small:
  assumes small: "length (splitLines c) \<le> 10"
  shows "splitLines (createContentPreview c 5 5)
        = map (\<lambda>i. numberedLine (showNat (i + 1)) (take 1000 (splitLines c ! i)))
            [0..<length (splitLines c)]"
proof -
  let ?ls = "splitLines c"
  let ?n = "length ?ls"
  let ?num = "\<lambda>i. numberedLine (showNat (i + 1)) (take 1000 (?ls ! i))"
  have ok: "\<forall>l \<in> set (map (jsSubstring0 1000) ?ls). length l \<le> 10000 \<and> CHR 0x0A \<notin> set l"
    using preview_lines_ok [of "?n" 0 c] by simp
  have ne: "map (jsSubstring0 1000) ?ls \<noteq> []" by (simp add: splitLines_nonempty)
  have "splitLines (formatContentWithLineNumbers (map (jsSubstring0 1000) ?ls) 1)
        = map (\<lambda>i. numberedLine (showInt (1 + int i)) (map (jsSubstring0 1000) ?ls ! i)) [0..<?n]"
    using format_short_lines [OF ne ok, of 1] by simp
  also have "\<dots> = map ?num [0..<?n]"
    by (rule map_cong) (simp_all add: jsSubstring0_def showInt_int [symmetric])
  finally show ?thesis
    using small by (simp add: createContentPreview_def Let_def)
qed

lemma preview_big:
  assumes big: "10 < length (splitLines c)"
  shows "splitLines (createContentPreview c 5 5)
        = map (\<lambda>i. numberedLine (showNat (i + 1)) (take 1000 (splitLines c ! i))) [0..<5]
          @ [''... ['' @ showNat (length (splitLines c) - 10) @ '' lines truncated] ...'']
          @ map (\<lambda>i. numberedLine (showNat (i + 1)) (take 1000 (splitLines c ! i)))
              [length (splitLines c) - 5..<length (splitLines c)]"
proof -
  let ?ls = "splitLines c"
  let ?n = "length ?ls"
  let ?num = "\<lambda>i. numberedLine (showNat (i + 1)) (take 1000 (?ls ! i))"
  let ?marker = "''... ['' @ showNat (?n - 10) @ '' lines truncated] ...''"
  let ?H = "map (jsSubstring0 1000) (take 5 ?ls)"
  let ?T = "map (jsSubstring0 1000) (drop (?n - 5) ?ls)"
  have okH: "\<forall>l \<in> set ?H. length l \<le> 10000 \<and> CHR 0x0A \<notin> set l"
    using preview_lines_ok [of 5 0 c] by simp
  have okT: "\<forall>l \<in> set ?T. length l \<le> 10000 \<and> CHR 0x0A \<notin> set l"
    using preview_lines_ok [of "?n" "?n - 5" c] by simp
  have neH: "?H \<noteq> []" and neT: "?T \<noteq> []" using big by auto
  have lenH: "length ?H = 5" and lenT: "length ?T = 5" using big by auto
  have H: "splitLines (formatContentWithLineNumbers ?H 1) = map ?num [0..<5]"
  proof -
    have "splitLines (formatContentWithLineNumbers ?H 1)
          = map (\<lambda>i. numberedLine (showInt (1 + int i)) (?H ! i)) [0..<5]"
      using format_short_lines [OF neH okH, of 1] lenH by simp
    also have "\<dots> = map ?num [0..<5]"
      using big by (intro map_cong refl) (simp add: jsSubstring0_def showInt_int [symmetric])
    finally show ?thesis .
  qed
  have T: "splitLines (formatContentWithLineNumbers ?T (int ?n - 5 + 1)) = map ?num [?n - 5..<?n]"
  proof -
    have "splitLines (formatContentWithLineNumbers ?T (int ?n - 5 + 1))
          = map (\<lambda>i. numberedLine (showInt (int ?n - 5 + 1 + int i)) (?T ! i)) [0..<5]"
      using format_short_lines [OF neT okT, of "int ?n - 5 + 1"] lenT by simp
    also have "\<dots> = map (\<lambda>i. ?num (i + (?n - 5))) [0..<5]"
    proof (intro map_cong refl)
      fix i assume "i \<in> set [0..<5]"
      then have i: "i < 5" by simp
      with big have "int ?n - 5 + 1 + int i = int (i + (?n - 5) + 1)" by simp
      then have "showInt (int ?n - 5 + 1 + int i) = showNat (i + (?n - 5) + 1)"
        by (simp only: showInt_int)
      moreover from i big have "?T ! i = take 1000 (?ls ! (i + (?n - 5)))"
        by (simp add: jsSubstring0_def add.commute)
      ultimately show "numberedLine (showInt (int ?n - 5 + 1 + int i)) (?T ! i) = ?num (i + (?n - 5))"
        by simp
    qed
    also have "\<dots> = map ?num (map (\<lambda>i. i + (?n - 5)) [0..<5])" by (simp add: comp_def)
    also have "map (\<lambda>i. i + (?n - 5)) [0..<5] = [?n - 5..<?n]"
    proof -
      have "map (\<lambda>i. i + (?n - 5)) [0..<5] = [?n - 5..<5 + (?n - 5)]"
        by (rule map_add_upt)
      moreover from big have "5 + (?n - 5) = ?n" by simp
      ultimately show ?thesis by (simp only:)
    qed
    finally show ?thesis .
  qed
  have marker: "splitLines ?marker = [?marker]"
    by (rule splitLines_single) (simp add: showNat_no_nl)
  have "createContentPreview c 5 5
        = formatContentWithLineNumbers ?H 1 @ CHR 0x0A # ?marker @ CHR 0x0A #
          formatContentWithLineNumbers ?T (int ?n - 5 + 1)"
    using big by (simp add: createContentPreview_def Let_def jsSliceTo_def jsSliceFrom_def
        showInt_def nat_diff_distrib')
  then have "splitLines (createContentPreview c 5 5)
        = splitLines (formatContentWithLineNumbers ?H 1)
          @ splitLines (?marker @ CHR 0x0A # formatContentWithLineNumbers ?T (int ?n - 5 + 1))"
    by (simp only: splitLines_append_nl)
  also have "splitLines (?marker @ CHR 0x0A # formatContentWithLineNumbers ?T (int ?n - 5 + 1))
        = splitLines ?marker @ splitLines (formatContentWithLineNumbers ?T (int ?n - 5 + 1))"
    by (rule splitLines_append_nl)
  finally show ?thesis
    by (simp only: H T marker)
qed

text \<open>
  C4. With head and tail 5, a content of at most 10 lines is shown whole: output line \<open>i\<close>
  is line \<open>i\<close> of the content cut to 1000 characters, numbered from 1. A content of more
  than 10 lines gives exactly 5 + 5 + 1 output lines: the first five lines, one marker
  line with the number of omitted lines (the total minus 10), and the last five lines,
  numbered on from the total minus 5 plus 1.
\<close>

theorem createContentPreview_lines:
  "(length (splitLines c) \<le> 10 \<longrightarrow>
      splitLines (createContentPreview c 5 5)
        = map (\<lambda>i. numberedLine (showNat (i + 1)) (take 1000 (splitLines c ! i)))
            [0..<length (splitLines c)]) \<and>
   (length (splitLines c) > 10 \<longrightarrow>
      splitLines (createContentPreview c 5 5)
        = map (\<lambda>i. numberedLine (showNat (i + 1)) (take 1000 (splitLines c ! i))) [0..<5]
          @ [''... ['' @ showNat (length (splitLines c) - 10) @ '' lines truncated] ...'']
          @ map (\<lambda>i. numberedLine (showNat (i + 1)) (take 1000 (splitLines c ! i)))
              [length (splitLines c) - 5..<length (splitLines c)]
      \<and> length (splitLines (createContentPreview c 5 5)) = 5 + 5 + 1)"
proof (intro conjI impI)
  assume "length (splitLines c) \<le> 10"
  then show "splitLines (createContentPreview c 5 5)
        = map (\<lambda>i. numberedLine (showNat (i + 1)) (take 1000 (splitLines c ! i)))
            [0..<length (splitLines c)]"
    by (rule preview_small)
next
  assume "10 < length (splitLines c)"
  then show "splitLines (createContentPreview c 5 5)
        = map (\<lambda>i. numberedLine (showNat (i + 1)) (take 1000 (splitLines c ! i))) [0..<5]
          @ [''... ['' @ showNat (length (splitLines c) - 10) @ '' lines truncated] ...'']
          @ map (\<lambda>i. numberedLine (showNat (i + 1)) (take 1000 (splitLines c ! i)))
              [length (splitLines c) - 5..<length (splitLines c)]"
    by (rule preview_big)
next
  assume big: "10 < length (splitLines c)"
  then show "length (splitLines (createContentPreview c 5 5)) = 5 + 5 + 1"
    by (simp add: preview_big)
qed

theorem createContentPreview_lines_witness:
  "splitLines (createContentPreview ''a\<newline>b'' 5 5)
     = [''     1'' @ CHR 0x09 # ''a'', ''     2'' @ CHR 0x09 # ''b''] \<and>
   splitLines (createContentPreview
       ''a\<newline>b\<newline>c\<newline>d\<newline>e\<newline>f\<newline>g\<newline>h\<newline>i\<newline>j\<newline>k\<newline>l'' 5 5)
     = [''     1'' @ CHR 0x09 # ''a'', ''     2'' @ CHR 0x09 # ''b'', ''     3'' @ CHR 0x09 # ''c'',
        ''     4'' @ CHR 0x09 # ''d'', ''     5'' @ CHR 0x09 # ''e'',
        ''... [2 lines truncated] ...'',
        ''     8'' @ CHR 0x09 # ''h'', ''     9'' @ CHR 0x09 # ''i'', ''    10'' @ CHR 0x09 # ''j'',
        ''    11'' @ CHR 0x09 # ''k'', ''    12'' @ CHR 0x09 # ''l'']"
proof -
  let ?c1 = "''a\<newline>b''"
  let ?c2 = "''a\<newline>b\<newline>c\<newline>d\<newline>e\<newline>f\<newline>g\<newline>h\<newline>i\<newline>j\<newline>k\<newline>l''"
  have s1: "length (splitLines ?c1) \<le> 10" by code_simp
  have s2: "length (splitLines ?c2) > 10" by code_simp
  from createContentPreview_lines [of ?c1] s1
  have "splitLines (createContentPreview ?c1 5 5)
        = map (\<lambda>i. numberedLine (showNat (i + 1)) (take 1000 (splitLines ?c1 ! i)))
            [0..<length (splitLines ?c1)]" by blast
  also have "\<dots> = [''     1'' @ CHR 0x09 # ''a'', ''     2'' @ CHR 0x09 # ''b'']" by code_simp
  finally have a: "splitLines (createContentPreview ?c1 5 5)
        = [''     1'' @ CHR 0x09 # ''a'', ''     2'' @ CHR 0x09 # ''b'']" .
  from createContentPreview_lines [of ?c2] s2
  have "splitLines (createContentPreview ?c2 5 5)
        = map (\<lambda>i. numberedLine (showNat (i + 1)) (take 1000 (splitLines ?c2 ! i))) [0..<5]
          @ [''... ['' @ showNat (length (splitLines ?c2) - 10) @ '' lines truncated] ...'']
          @ map (\<lambda>i. numberedLine (showNat (i + 1)) (take 1000 (splitLines ?c2 ! i)))
              [length (splitLines ?c2) - 5..<length (splitLines ?c2)]" by blast
  also have "\<dots> = [''     1'' @ CHR 0x09 # ''a'', ''     2'' @ CHR 0x09 # ''b'', ''     3'' @ CHR 0x09 # ''c'',
        ''     4'' @ CHR 0x09 # ''d'', ''     5'' @ CHR 0x09 # ''e'',
        ''... [2 lines truncated] ...'',
        ''     8'' @ CHR 0x09 # ''h'', ''     9'' @ CHR 0x09 # ''i'', ''    10'' @ CHR 0x09 # ''j'',
        ''    11'' @ CHR 0x09 # ''k'', ''    12'' @ CHR 0x09 # ''l'']" by code_simp
  finally show ?thesis using a by blast
qed

section \<open>Properties of the eviction wrapper\<close>

lemma line80000_length: "length line80000 = 80000"
  by (simp add: line80000_def)

lemma line100000_length: "length line100000 = 100000"
  by (simp add: line100000_def)

lemma excluded_requestOf:
  "excludedFromEviction (requestOf n i) = (n \<in> set TOOLS_EXCLUDED_FROM_EVICTION)"
  by (auto simp: excludedFromEviction_def requestOf_def requestToolName_def truthy_def
      TOOLS_EXCLUDED_FROM_EVICTION_def)

text \<open>
  C6. For a tool call whose tool name is in the exemption set the wrapper returns the
  result of the handler unchanged, whatever its size, and leaves the storage of the
  backend as it was: nothing is written and no state update is added.
\<close>

theorem wrapToolCall_excluded:
  "requestToolName request = Some toolName \<Longrightarrow>
   toolName \<in> set TOOLS_EXCLUDED_FROM_EVICTION \<Longrightarrow>
   wrapToolCall toolTokenLimitBeforeEvict backend sanitizeToolCallId request result b
     = (Inr result, b)"
proof -
  assume n: "requestToolName request = Some toolName"
    and ex: "toolName \<in> set TOOLS_EXCLUDED_FROM_EVICTION"
  from ex have "toolName \<noteq> []" by (auto simp: TOOLS_EXCLUDED_FROM_EVICTION_def)
  with n ex have "excludedFromEviction request"
    by (simp add: excludedFromEviction_def truthy_def)
  then show ?thesis by (simp add: wrapToolCall_def split: option.splits)
qed

theorem wrapToolCall_excluded_witness:
  "wrapToolCall (Some 20000) (Instance recordingBackend) (\<lambda>s. s) (requestOf ''grep'' ''call_1'')
     (ResultMessage (textMessage ''grep'' ''call_1'' line100000)) []
   = (Inr (ResultMessage (textMessage ''grep'' ''call_1'' line100000)), []) \<and>
   length line100000 = 100000"
proof -
  have n: "requestToolName (requestOf ''grep'' ''call_1'') = Some ''grep''"
    by (simp add: requestToolName_def requestOf_def)
  have ex: "''grep'' \<in> set TOOLS_EXCLUDED_FROM_EVICTION"
    by (simp add: TOOLS_EXCLUDED_FROM_EVICTION_def)
  from wrapToolCall_excluded [OF n ex] line100000_length show ?thesis by simp
qed




lemma processToolMessage_success:
  assumes "content msg = Text text" and "int (length text) > t * NUM_CHARS_PER_TOKEN"
    and "writeFile (getBackend backend (requestStateAndStore request))
           (evictPathOf sanitizeToolCallId request msg) text b = (Inr wr, b')"
    and "\<not> truthy (error wr)"
  shows "processToolMessage backend sanitizeToolCallId request msg t b
         = (Inr (truncatedMessage msg (evictPathOf sanitizeToolCallId request msg) text,
                 filesUpdate wr), b')"
  using assms by (simp add: processToolMessage_def Let_def)







section \<open>The eviction notice\<close>

text \<open>
  The replacement patterns at work: a plain replacement, \<open>$$\<close>, \<open>$&\<close>, the text before
  the match and the text after it; only the first occurrence is replaced.
\<close>

lemma jsReplace_examples:
  "jsReplace ''id={x};{x}'' ''{x}'' ''42'' = ''id=42;{x}'' \<and>
   jsReplace ''id={x};'' ''{x}'' ''$$1'' = ''id=$1;'' \<and>
   jsReplace ''id={x};'' ''{x}'' ''<$&>'' = ''id=<{x}>;'' \<and>
   jsReplace ''id={x};'' ''{x}'' [CHR ''$'', CHR 0x60] = ''id=id=;'' \<and>
   jsReplace ''id={x};'' ''{x}'' [CHR ''$'', CHR 0x27] = ''id=;;'' \<and>
   jsReplace ''id={x};'' ''{y}'' ''42'' = ''id={x};''"
  by code_simp


lemma getSubstitution_plain:
  "CHR ''$'' \<notin> set r \<Longrightarrow> getSubstitution m before after r = r"
  by (induction m before after r rule: getSubstitution.induct) auto

























lemma replacementText_example:
  "replacementText ''call_1'' ''/large_tool_results/call_1'' ''0123456789'' =
     ''Tool result too large, the result of this tool call call_1 was saved in the filesystem at this path: /large_tool_results/call_1\<newline>You can read the result from the filesystem by using the read_file tool, but make sure to only read part of the result at a time.\<newline>You can do this by specifying an offset and limit in the read_file tool call.\<newline>For example, to read the first 100 lines, you can use the read_file tool with offset=0 and limit=100.\<newline>\<newline>Here is a preview showing the head and tail of the result (lines of the form\<newline>... [N lines truncated] ...\<newline>indicate omitted lines in the middle of the content):\<newline>\<newline>'' @
     ''     1'' @ [CHR 0x09] @ ''0123456789''"
  by code_simp





text \<open>
  A command whose oversized message is written by a backend that reports no files update
  is returned as it came: the text is written, and the message stays in the command.
\<close>

lemma command_without_filesUpdate:
  assumes "t \<noteq> 0" and "\<not> excludedFromEviction request"
    and "content msg = Text original" and "int (length original) > t * NUM_CHARS_PER_TOKEN"
    and "writeFile (getBackend backend (requestStateAndStore request))
           (''/large_tool_results/'' @ sanitizeToolCallId (evictionId request msg)) original b
         = (Inr wr, b')"
    and "\<not> truthy (error wr)" and "filesUpdate wr = None"
    and "messages upd = Some [ToolMsg msg]"
  shows "wrapToolCall (Some t) backend sanitizeToolCallId request
           (ResultCommand \<lparr>cmd_update = Some upd, goto = g\<rparr>) b
         = (Inr (ResultCommand \<lparr>cmd_update = Some upd, goto = g\<rparr>), b')"
proof -
  have w: "writeFile (getBackend backend (requestStateAndStore request))
             (evictPathOf sanitizeToolCallId request msg) original b = (Inr wr, b')"
    using assms(5) by (simp add: evictPathOf_def)
  from processToolMessage_success [OF assms(3,4) w assms(6)] assms(7)
  have "processToolMessage backend sanitizeToolCallId request msg t b
        = (Inr (truncatedMessage msg (evictPathOf sanitizeToolCallId request msg) original, None), b')"
    by simp
  with assms(1,2,8) show ?thesis by (simp add: wrapToolCall_def)
qed

lemma command_without_filesUpdate_example:
  "wrapToolCall (Some 1) (Instance quietBackend) (\<lambda>s. s) (requestOf ''execute'' ''call_1'')
     (ResultCommand
        \<lparr>cmd_update = Some \<lparr>messages = Some [ToolMsg (textMessage ''execute'' ''call_1'' ''0123456789'')],
                            cmd_files = None, other_keys = []\<rparr>,
         goto = None\<rparr>) []
   = (Inr (ResultCommand
        \<lparr>cmd_update = Some \<lparr>messages = Some [ToolMsg (textMessage ''execute'' ''call_1'' ''0123456789'')],
                            cmd_files = None, other_keys = []\<rparr>,
         goto = None\<rparr>),
      [(''/large_tool_results/call_1'', ''0123456789'')])"
proof -
  let ?req = "requestOf ''execute'' ''call_1''"
  let ?msg = "textMessage ''execute'' ''call_1'' ''0123456789''"
  have ne: "\<not> excludedFromEviction ?req"
    by (simp add: excluded_requestOf TOOLS_EXCLUDED_FROM_EVICTION_def)
  have i: "evictionId ?req ?msg = ''call_1''"
    by (simp add: evictionId_def requestOf_def truthy_def)
  have w: "writeFile (getBackend (Instance quietBackend) (requestStateAndStore ?req))
              (''/large_tool_results/'' @ (\<lambda>s. s) (evictionId ?req ?msg)) ''0123456789'' []
            = (Inr \<lparr>error = None, filesUpdate = None\<rparr>, [(''/large_tool_results/call_1'', ''0123456789'')])"
    by (simp add: getBackend_def quietBackend_def i)
  show ?thesis
    by (rule command_without_filesUpdate [where sanitizeToolCallId = "\<lambda>s. s" and original = "''0123456789''", OF _ ne _ _ w])
      (simp_all add: textMessage_def NUM_CHARS_PER_TOKEN_def truthy_def)
qed

section \<open>Properties of the read_file tool\<close>

lemma find_file_path:
  "findFirst ''{file_path}'' READ_FILE_TRUNCATION_MSG
   = Some (''\<newline>\<newline>[Output was truncated due to size limits. The file content is very large. Consider reformatting the file to make it easier to navigate. For example, if this is JSON, use execute(command='jq . '',
           ''') to pretty-print it with line breaks. For other formats, you can use appropriate formatting tools to split long lines.]'')"
  by code_simp

lemma readTruncationMsg_plain:
  assumes "CHR ''$'' \<notin> set filePath"
  shows "readTruncationMsg filePath
   = ''\<newline>\<newline>[Output was truncated due to size limits. The file content is very large. Consider reformatting the file to make it easier to navigate. For example, if this is JSON, use execute(command='jq . ''
     @ filePath
     @ ''') to pretty-print it with line breaks. For other formats, you can use appropriate formatting tools to split long lines.]''"
  by (simp only: readTruncationMsg_def jsReplace_def find_file_path option.case prod.case
      getSubstitution_plain [OF assms])

lemma enforceLineLimit_lines:
  assumes "1 \<le> lim"
  shows "int (length (splitLines (enforceLineLimit lim r0))) \<le> lim"
proof (cases "int (length (splitLines r0)) > lim")
  case False
  then show ?thesis by (simp add: enforceLineLimit_def)
next
  case True
  let ?kept = "take (nat lim) (splitLines r0)"
  have ne: "?kept \<noteq> []" using assms by (simp add: splitLines_nonempty)
  have nl: "\<forall>l \<in> set ?kept. CHR 0x0A \<notin> set l"
    by (auto dest: in_set_takeD splitLines_no_nl)
  from True assms have "enforceLineLimit lim r0 = jsJoin [CHR 0x0A] ?kept"
    by (simp add: enforceLineLimit_def jsSliceTo_def)
  with ne nl have "splitLines (enforceLineLimit lim r0) = ?kept"
    by (simp add: splitLines_jsJoin)
  with assms show ?thesis by simp
qed

lemma line80000_single: "splitLines line80000 = [line80000]"
  by (rule splitLines_single) (simp add: line80000_def)

text \<open>
  C5. For a call of \<open>read_file\<close> with a line limit \<open>L\<close> of at least 1, the file
  text kept from the answer of the backend has at most \<open>L\<close> lines, even if the backend
  returns more. Below the character cap (or with no cap) that text is the result. When it
  reaches the cap (threshold times 4 characters), it is cut at the end to the cap minus
  the length of the notice (to nothing, if that is negative) and the truncation notice
  is appended; the notice names the requested path, literally when the path holds no
  dollar sign. The notice brings lines of its own, so only the file text before it is
  within the limit.
\<close>

theorem readFileTool_limits:
  assumes "L = (case limit input of None \<Rightarrow> DEFAULT_READ_LINE_LIMIT | Some v \<Rightarrow> v)"
    and "1 \<le> L"
    and "read (getBackend backend stateAndStore) (file_path input)
           (Some (case offset input of None \<Rightarrow> DEFAULT_READ_LINE_OFFSET | Some v \<Rightarrow> v))
           (Some L) b = Inr r0"
  shows
    "int (length (splitLines (enforceLineLimit L r0))) \<le> L \<and>
     (cap = None \<or> cap = Some 0 \<or>
      (\<exists>t. cap = Some t \<and> int (length (enforceLineLimit L r0)) < NUM_CHARS_PER_TOKEN * t) \<longrightarrow>
        readFileTool backend cap input stateAndStore b = Inr (enforceLineLimit L r0)) \<and>
     (\<forall>t. cap = Some t \<and> t \<noteq> 0 \<and>
          int (length (enforceLineLimit L r0)) \<ge> NUM_CHARS_PER_TOKEN * t \<longrightarrow>
        readFileTool backend cap input stateAndStore b
          = Inr (take (nat (NUM_CHARS_PER_TOKEN * t - int (length (readTruncationMsg (file_path input)))))
                   (enforceLineLimit L r0)
                 @ readTruncationMsg (file_path input)) \<and>
        int (length (splitLines
          (take (nat (NUM_CHARS_PER_TOKEN * t - int (length (readTruncationMsg (file_path input)))))
             (enforceLineLimit L r0)))) \<le> L) \<and>
     (CHR ''$'' \<notin> set (file_path input) \<longrightarrow>
        readTruncationMsg (file_path input)
        = ''\<newline>\<newline>[Output was truncated due to size limits. The file content is very large. Consider reformatting the file to make it easier to navigate. For example, if this is JSON, use execute(command='jq . ''
          @ file_path input
          @ ''') to pretty-print it with line breaks. For other formats, you can use appropriate formatting tools to split long lines.]'')"
proof -
  let ?r1 = "enforceLineLimit L r0"
  have run: "readFileTool backend cap input stateAndStore b
             = Inr (enforceCharLimit cap (file_path input) ?r1)"
    using assms(1,3) by (simp add: readFileTool_def Let_def)
  have lines: "int (length (splitLines ?r1)) \<le> L"
    using assms(2) by (rule enforceLineLimit_lines)
  have below: "cap = None \<or> cap = Some 0 \<or>
      (\<exists>t. cap = Some t \<and> int (length ?r1) < NUM_CHARS_PER_TOKEN * t) \<longrightarrow>
        readFileTool backend cap input stateAndStore b = Inr ?r1"
    using run by (auto simp: enforceCharLimit_def)
  have cut: "\<forall>t. cap = Some t \<and> t \<noteq> 0 \<and> int (length ?r1) \<ge> NUM_CHARS_PER_TOKEN * t \<longrightarrow>
        readFileTool backend cap input stateAndStore b
          = Inr (take (nat (NUM_CHARS_PER_TOKEN * t - int (length (readTruncationMsg (file_path input))))) ?r1
                 @ readTruncationMsg (file_path input)) \<and>
        int (length (splitLines
          (take (nat (NUM_CHARS_PER_TOKEN * t - int (length (readTruncationMsg (file_path input))))) ?r1)))
          \<le> L"
  proof (intro allI impI conjI)
    fix t assume h: "cap = Some t \<and> t \<noteq> 0 \<and> int (length ?r1) \<ge> NUM_CHARS_PER_TOKEN * t"
    let ?m = "nat (NUM_CHARS_PER_TOKEN * t - int (length (readTruncationMsg (file_path input))))"
    from h run show "readFileTool backend cap input stateAndStore b
          = Inr (take ?m ?r1 @ readTruncationMsg (file_path input))"
      by (simp add: enforceCharLimit_def Let_def jsSubstring0_def)
    have "length (splitLines (take ?m ?r1)) \<le> length (splitLines ?r1)"
      by (rule length_splitLines_take)
    with lines show "int (length (splitLines (take ?m ?r1))) \<le> L" by simp
  qed
  have named: "CHR ''$'' \<notin> set (file_path input) \<longrightarrow>
        readTruncationMsg (file_path input)
        = ''\<newline>\<newline>[Output was truncated due to size limits. The file content is very large. Consider reformatting the file to make it easier to navigate. For example, if this is JSON, use execute(command='jq . ''
          @ file_path input
          @ ''') to pretty-print it with line breaks. For other formats, you can use appropriate formatting tools to split long lines.]''"
    by (rule impI) (rule readTruncationMsg_plain)
  from lines below cut named show ?thesis by (intro conjI)
qed

lemma line80000_no_nl: "CHR 0x0A \<notin> set line80000"
  by (simp add: line80000_def)

lemma fixedRead:
  "read (getBackend (Instance (fixedReadBackend s)) sas) p off lim b = Inr s"
  by (simp add: getBackend_def fixedReadBackend_def)

theorem readFileTool_limits_witness:
  "readFileTool (Instance (fixedReadBackend ''a\<newline>b\<newline>c'')) (Some 20000)
     \<lparr>file_path = ''/f.txt'', offset = None, limit = Some 2\<rparr>
     \<lparr>state = emptyState, store = None\<rparr> ()
   = Inr ''a\<newline>b'' \<and>
   readFileTool (Instance (fixedReadBackend line80000)) (Some 20000)
     \<lparr>file_path = ''/f.txt'', offset = None, limit = None\<rparr>
     \<lparr>state = emptyState, store = None\<rparr> ()
   = Inr (take 79679 line80000 @ readTruncationMsg ''/f.txt'') \<and>
   readTruncationMsg ''/f.txt''
   = ''\<newline>\<newline>[Output was truncated due to size limits. The file content is very large. Consider reformatting the file to make it easier to navigate. For example, if this is JSON, use execute(command='jq . /f.txt') to pretty-print it with line breaks. For other formats, you can use appropriate formatting tools to split long lines.]''"
proof -
  let ?sas = "\<lparr>state = emptyState, store = None\<rparr>"
  let ?in1 = "\<lparr>file_path = ''/f.txt'', offset = None, limit = Some (2::int)\<rparr>"
  let ?in2 = "\<lparr>file_path = ''/f.txt'', offset = None, limit = None\<rparr>"
  have msg: "readTruncationMsg ''/f.txt''
   = ''\<newline>\<newline>[Output was truncated due to size limits. The file content is very large. Consider reformatting the file to make it easier to navigate. For example, if this is JSON, use execute(command='jq . /f.txt') to pretty-print it with line breaks. For other formats, you can use appropriate formatting tools to split long lines.]''"
    by code_simp
  have len: "length (readTruncationMsg ''/f.txt'') = 321" by code_simp
  have l1: "(2::int) = (case limit ?in1 of None \<Rightarrow> DEFAULT_READ_LINE_LIMIT | Some v \<Rightarrow> v)" by simp
  have r1: "enforceLineLimit 2 ''a\<newline>b\<newline>c'' = ''a\<newline>b''" by code_simp
  note t1 = readFileTool_limits [where backend = "Instance (fixedReadBackend ''a\<newline>b\<newline>c'')"
      and stateAndStore = ?sas and b = "()" and cap = "Some 20000", OF l1 _ fixedRead]
  have a: "readFileTool (Instance (fixedReadBackend ''a\<newline>b\<newline>c'')) (Some 20000) ?in1 ?sas ()
           = Inr ''a\<newline>b''"
    using t1 [THEN conjunct2, THEN conjunct1] by (simp add: r1 NUM_CHARS_PER_TOKEN_def)
  have l2: "(100::int) = (case limit ?in2 of None \<Rightarrow> DEFAULT_READ_LINE_LIMIT | Some v \<Rightarrow> v)"
    by (simp add: DEFAULT_READ_LINE_LIMIT_def)
  have r2: "enforceLineLimit 100 line80000 = line80000"
    by (simp add: enforceLineLimit_def line80000_single)
  note t2 = readFileTool_limits [where backend = "Instance (fixedReadBackend line80000)"
      and stateAndStore = ?sas and b = "()" and cap = "Some 20000", OF l2 _ fixedRead]
  have b: "readFileTool (Instance (fixedReadBackend line80000)) (Some 20000) ?in2 ?sas ()
           = Inr (take 79679 line80000 @ readTruncationMsg ''/f.txt'')"
    using t2 [THEN conjunct2, THEN conjunct2, THEN conjunct1]
    by (simp add: r2 NUM_CHARS_PER_TOKEN_def line80000_length len)
  from a b msg show ?thesis by (intro conjI)
qed

text \<open>
  With the limit 1 and a file of one line of 80000 characters, the result is cut and the
  notice is appended: the returned string has three lines.
\<close>

theorem readFileTool_line_limit_counterexample:
  "readFileTool (Instance (fixedReadBackend line80000)) (Some 20000)
     \<lparr>file_path = ''/big.txt'', offset = None, limit = Some 1\<rparr>
     \<lparr>state = emptyState, store = None\<rparr> ()
   = Inr (take 79677 line80000 @ readTruncationMsg ''/big.txt'') \<and>
   length (splitLines (take 79677 line80000 @ readTruncationMsg ''/big.txt'')) = 3"
proof -
  have msg: "readTruncationMsg ''/big.txt''
   = CHR 0x0A # CHR 0x0A # ''[Output was truncated due to size limits. The file content is very large. Consider reformatting the file to make it easier to navigate. For example, if this is JSON, use execute(command='jq . /big.txt') to pretty-print it with line breaks. For other formats, you can use appropriate formatting tools to split long lines.]''"
    by code_simp
  have len: "length (readTruncationMsg ''/big.txt'') = 323" by code_simp
  have rest: "length (splitLines (tl (readTruncationMsg ''/big.txt''))) = 2" by code_simp
  have r1: "enforceLineLimit 1 line80000 = line80000"
    by (simp add: enforceLineLimit_def line80000_single)
  have a: "readFileTool (Instance (fixedReadBackend line80000)) (Some 20000)
     \<lparr>file_path = ''/big.txt'', offset = None, limit = Some 1\<rparr>
     \<lparr>state = emptyState, store = None\<rparr> ()
   = Inr (take 79677 line80000 @ readTruncationMsg ''/big.txt'')"
    by (simp add: readFileTool_def fixedRead r1 enforceCharLimit_def NUM_CHARS_PER_TOKEN_def
        line80000_length len jsSubstring0_def)
  have kept: "splitLines (take 79677 line80000) = [take 79677 line80000]"
    using line80000_no_nl by (intro splitLines_single) (auto dest: in_set_takeD)
  have "splitLines (take 79677 line80000 @ readTruncationMsg ''/big.txt'')
        = splitLines (take 79677 line80000) @ splitLines (tl (readTruncationMsg ''/big.txt''))"
    by (simp add: msg splitLines_append_nl)
  also have "length \<dots> = 3" by (simp add: kept rest)
  finally have b: "length (splitLines (take 79677 line80000 @ readTruncationMsg ''/big.txt'')) = 3" .
  from a b show ?thesis by (intro conjI)
qed

section \<open>Properties of the skills loader\<close>

lemma map_of_fold_setSkill:
  "map_of (fold setSkill xs m) n
   = (case filter (\<lambda>x. name x = n) xs of [] \<Rightarrow> map_of m n | y # ys \<Rightarrow> Some (last (y # ys)))"
proof (induction xs arbitrary: m)
  case Nil
  show ?case by simp
next
  case (Cons x xs)
  show ?case
  proof (cases "filter (\<lambda>x. name x = n) xs")
    case Nil
    with Cons.IH [of "setSkill x m"]
    have "map_of (fold setSkill xs (setSkill x m)) n = map_of (setSkill x m) n" by simp
    also have "\<dots> = (if name x = n then Some x else map_of m n)"
      by (auto simp: setSkill_def update_conv')
    finally show ?thesis using Nil by simp
  next
    case (Cons y ys)
    with Cons.IH [of "setSkill x m"] show ?thesis by simp
  qed
qed

lemma distinct_fold_setSkill:
  "distinct (map fst m) \<Longrightarrow> distinct (map fst (fold setSkill xs m))"
  by (induction xs arbitrary: m) (simp_all add: setSkill_def distinct_update)

lemma set_update_cases: "e \<in> set (AList.update k v al) \<Longrightarrow> e = (k, v) \<or> e \<in> set al"
  by (induction al) (auto split: if_splits)

lemma keyed_fold_setSkill:
  "\<forall>(k, v) \<in> set m. name v = k \<Longrightarrow> \<forall>(k, v) \<in> set (fold setSkill xs m). name v = k"
proof (induction xs arbitrary: m)
  case Nil
  then show ?case by simp
next
  case (Cons x xs)
  have "\<forall>(k, v) \<in> set (setSkill x m). name v = k"
    using Cons.prems by (auto simp: setSkill_def dest!: set_update_cases)
  from Cons.IH [OF this] show ?case by simp
qed

text \<open>The values of the map built from a list of skills: one skill per name, the last one.\<close>

lemma mergedSkills:
  fixes xs :: "SkillMetadata list"
  defines "R \<equiv> map snd (fold setSkill xs [])"
  shows "distinct (map name R)"
    and "\<forall>s \<in> set R. s = last (filter (\<lambda>x. name x = name s) xs)"
    and "name ` set R = name ` set xs"
proof -
  let ?m = "fold setSkill xs []"
  have keyed: "\<forall>(k, v) \<in> set ?m. name v = k"
    by (rule keyed_fold_setSkill) simp
  have d: "distinct (map fst ?m)" by (rule distinct_fold_setSkill) simp
  have names: "map name R = map fst ?m"
    unfolding R_def using keyed by (auto simp: case_prod_unfold)
  with d show "distinct (map name R)" by simp
  show "\<forall>s \<in> set R. s = last (filter (\<lambda>x. name x = name s) xs)"
  proof
    fix s assume "s \<in> set R"
    then obtain k where in_m: "(k, s) \<in> set ?m" unfolding R_def by auto
    with keyed have k: "k = name s" by auto
    from d in_m have "map_of ?m k = Some s" by simp
    with k show "s = last (filter (\<lambda>x. name x = name s) xs)"
      by (simp add: map_of_fold_setSkill split: list.splits)
  qed
  show "name ` set R = name ` set xs"
  proof (rule set_eqI)
    fix n
    have "n \<in> name ` set R \<longleftrightarrow> n \<in> fst ` set ?m"
      using names by (metis set_map)
    also have "\<dots> \<longleftrightarrow> map_of ?m n \<noteq> None" by (simp add: map_of_eq_None_iff)
    also have "\<dots> \<longleftrightarrow> filter (\<lambda>x. name x = n) xs \<noteq> []"
      by (simp add: map_of_fold_setSkill split: list.splits)
    also have "\<dots> \<longleftrightarrow> n \<in> name ` set xs" by (auto simp: filter_empty_conv)
    finally show "n \<in> name ` set R \<longleftrightarrow> n \<in> name ` set xs" .
  qed
qed

lemma fold_setSkill_append: "fold setSkill ys (fold setSkill xs m) = fold setSkill (xs @ ys) m"
  by simp

text \<open>
  C10. With an empty or undefined current list and a non-empty update, the reducer
  returns the update as it is, without removing entries of the same name, so a result with
  two entries of one name is possible; entries are deduplicated by name, the later one
  winning, only when both lists are non-empty. With an empty or undefined update the
  current list is returned as it is.
\<close>

theorem skillsMetadataReducer_dedup:
  "(u \<noteq> [] \<and> (current = None \<or> current = Some []) \<longrightarrow>
      skillsMetadataReducer current (Some u) = u) \<and>
   (\<exists>v. v \<noteq> [] \<and> \<not> distinct (map name (skillsMetadataReducer None (Some v)))) \<and>
   (c \<noteq> [] \<and> u \<noteq> [] \<longrightarrow>
      distinct (map name (skillsMetadataReducer (Some c) (Some u))) \<and>
      (\<forall>s \<in> set (skillsMetadataReducer (Some c) (Some u)).
          s = last (filter (\<lambda>x. name x = name s) (c @ u))) \<and>
      name ` set (skillsMetadataReducer (Some c) (Some u)) = name ` set (c @ u)) \<and>
   ((upd = None \<or> upd = Some []) \<longrightarrow>
      skillsMetadataReducer current upd = (case current of None \<Rightarrow> [] | Some l \<Rightarrow> l))"
proof (intro conjI impI)
  assume "u \<noteq> [] \<and> (current = None \<or> current = Some [])"
  then show "skillsMetadataReducer current (Some u) = u"
    by (auto simp: skillsMetadataReducer_def)
next
  let ?v = "[skillOf ''a'' ''first'' ''/a'', skillOf ''a'' ''second'' ''/b'']"
  have "?v \<noteq> [] \<and> \<not> distinct (map name (skillsMetadataReducer None (Some ?v)))"
    by (simp add: skillsMetadataReducer_def skillOf_def)
  then show "\<exists>v. v \<noteq> [] \<and> \<not> distinct (map name (skillsMetadataReducer None (Some v)))"
    by (rule exI)
next
  assume h: "c \<noteq> [] \<and> u \<noteq> []"
  then have r: "skillsMetadataReducer (Some c) (Some u) = map snd (fold setSkill (c @ u) [])"
    by (simp add: skillsMetadataReducer_def)
  show "distinct (map name (skillsMetadataReducer (Some c) (Some u)))"
    unfolding r by (rule mergedSkills)
  show "\<forall>s \<in> set (skillsMetadataReducer (Some c) (Some u)).
          s = last (filter (\<lambda>x. name x = name s) (c @ u))"
    unfolding r by (rule mergedSkills)
  show "name ` set (skillsMetadataReducer (Some c) (Some u)) = name ` set (c @ u)"
    unfolding r by (rule mergedSkills)
next
  assume "upd = None \<or> upd = Some []"
  then show "skillsMetadataReducer current upd = (case current of None \<Rightarrow> [] | Some l \<Rightarrow> l)"
    by (auto simp: skillsMetadataReducer_def)
qed

theorem skillsMetadataReducer_dedup_witness:
  "skillsMetadataReducer None
     (Some [skillOf ''code-review'' ''first'' ''/a'', skillOf ''code-review'' ''second'' ''/b''])
   = [skillOf ''code-review'' ''first'' ''/a'', skillOf ''code-review'' ''second'' ''/b''] \<and>
   skillsMetadataReducer (Some [])
     (Some [skillOf ''code-review'' ''first'' ''/a'', skillOf ''code-review'' ''second'' ''/b''])
   = [skillOf ''code-review'' ''first'' ''/a'', skillOf ''code-review'' ''second'' ''/b''] \<and>
   skillsMetadataReducer (Some [skillOf ''code-review'' ''first'' ''/a''])
     (Some [skillOf ''code-review'' ''second'' ''/b''])
   = [skillOf ''code-review'' ''second'' ''/b'']"
proof -
  let ?a = "skillOf ''code-review'' ''first'' ''/a''"
  let ?b = "skillOf ''code-review'' ''second'' ''/b''"
  have ne: "[?a, ?b] \<noteq> []" by simp
  from skillsMetadataReducer_dedup [of "[?a, ?b]" None] ne
  have x: "skillsMetadataReducer None (Some [?a, ?b]) = [?a, ?b]" by blast
  from skillsMetadataReducer_dedup [of "[?a, ?b]" "Some []"] ne
  have y: "skillsMetadataReducer (Some []) (Some [?a, ?b]) = [?a, ?b]" by blast
  have z: "skillsMetadataReducer (Some [?a]) (Some [?b]) = [?b]"
    by (simp add: skillsMetadataReducer_def setSkill_def skillOf_def)
  from x y z show ?thesis by (intro conjI)
qed

lemma fold_loadSkillSource:
  "fst (fold (loadSkillSource parseSkill rb b) srcs (m, lg))
   = fold setSkill (concat (map (sourceSkills parseSkill rb b) srcs)) m"
proof (induction srcs arbitrary: m lg)
  case Nil
  show ?case by simp
next
  case (Cons src srcs)
  show ?case
  proof (cases "listSkillsFromBackend parseSkill rb src b")
    case (Inl e)
    with Cons.IH [of m "lg @ [(src, e)]"] show ?thesis
      by (simp add: loadSkillSource_def sourceSkills_def)
  next
    case (Inr skills)
    with Cons.IH [of "fold setSkill skills m" lg] show ?thesis
      by (simp add: loadSkillSource_def sourceSkills_def)
  qed
qed

lemma skillsBeforeAgent_load:
  assumes "skillsMetadata st = None \<or> skillsMetadata st = Some []"
  shows "skillsBeforeAgent parseSkill backend sources [] st b
         = (Some (map snd (fold setSkill
                    (concat (map (sourceSkills parseSkill
                                    (getBackend backend \<lparr>state = st, store = None\<rparr>) b) sources)) [])),
            map snd (fold setSkill
                    (concat (map (sourceSkills parseSkill
                                    (getBackend backend \<lparr>state = st, store = None\<rparr>) b) sources)) []),
            snd (fold (loadSkillSource parseSkill
                         (getBackend backend \<lparr>state = st, store = None\<rparr>) b) sources ([], [])))"
  using assms by (auto simp: skillsBeforeAgent_def Let_def fold_loadSkillSource)

text \<open>
  C9. When the skills are loaded from several sources in the configured order, the
  loader keeps one entry per name, the last one loaded. So when a source defines a skill
  and no later source defines a skill of that name, the registered metadata of that name
  (with its description) is the one from that source, whatever the earlier sources
  define.
\<close>

theorem skillsBeforeAgent_last_source_wins:
  assumes "skillsMetadata st = None \<or> skillsMetadata st = Some []"
    and "rb = getBackend backend \<lparr>state = st, store = None\<rparr>"
    and "loaded = fst (snd (skillsBeforeAgent parseSkill backend sources [] st b))"
  shows
    "fst (skillsBeforeAgent parseSkill backend sources [] st b) = Some loaded \<and>
     distinct (map name loaded) \<and>
     (\<forall>s \<in> set loaded.
        s = last (filter (\<lambda>x. name x = name s)
                    (concat (map (sourceSkills parseSkill rb b) sources)))) \<and>
     (\<forall>earlier src later s.
        sources = earlier @ src # later \<and> s \<in> set (sourceSkills parseSkill rb b src) \<and>
        (\<forall>l \<in> set later. \<forall>x \<in> set (sourceSkills parseSkill rb b l). name x \<noteq> name s) \<longrightarrow>
        (\<exists>r \<in> set loaded. name r = name s \<and>
           r = last (filter (\<lambda>x. name x = name s) (sourceSkills parseSkill rb b src)) \<and>
           r \<in> set (sourceSkills parseSkill rb b src)))"
proof -
  let ?all = "concat (map (sourceSkills parseSkill rb b) sources)"
  have loaded: "loaded = map snd (fold setSkill ?all [])"
    using assms by (simp add: skillsBeforeAgent_load)
  have upd: "fst (skillsBeforeAgent parseSkill backend sources [] st b) = Some loaded"
    using assms(1,2) loaded by (simp add: skillsBeforeAgent_load)
  have d: "distinct (map name loaded)" unfolding loaded by (rule mergedSkills)
  have lastwins: "\<forall>s \<in> set loaded. s = last (filter (\<lambda>x. name x = name s) ?all)"
    unfolding loaded by (rule mergedSkills)
  have names: "name ` set loaded = name ` set ?all" unfolding loaded by (rule mergedSkills)
  have layered: "\<forall>earlier src later s.
        sources = earlier @ src # later \<and> s \<in> set (sourceSkills parseSkill rb b src) \<and>
        (\<forall>l \<in> set later. \<forall>x \<in> set (sourceSkills parseSkill rb b l). name x \<noteq> name s) \<longrightarrow>
        (\<exists>r \<in> set loaded. name r = name s \<and>
           r = last (filter (\<lambda>x. name x = name s) (sourceSkills parseSkill rb b src)) \<and>
           r \<in> set (sourceSkills parseSkill rb b src))"
  proof (intro allI impI)
    fix earlier src later s
    assume h: "sources = earlier @ src # later \<and> s \<in> set (sourceSkills parseSkill rb b src) \<and>
        (\<forall>l \<in> set later. \<forall>x \<in> set (sourceSkills parseSkill rb b l). name x \<noteq> name s)"
    let ?P = "\<lambda>x. name x = name s"
    let ?S = "sourceSkills parseSkill rb b src"
    from h have split: "?all = concat (map (sourceSkills parseSkill rb b) earlier) @ ?S
          @ concat (map (sourceSkills parseSkill rb b) later)" by simp
    from h have none_later: "filter ?P (concat (map (sourceSkills parseSkill rb b) later)) = []"
      by (auto simp: filter_empty_conv)
    from h have some_here: "filter ?P ?S \<noteq> []" by (auto simp: filter_empty_conv)
    have last_all: "last (filter ?P ?all) = last (filter ?P ?S)"
      using none_later some_here by (simp add: split)
    from h have "name s \<in> name ` set ?all" by (auto simp: split)
    then have "name s \<in> name ` set loaded" by (simp only: names)
    then obtain r where r: "r \<in> set loaded" and rn: "name r = name s"
      by (auto simp: image_iff)
    from lastwins r have "r = last (filter (\<lambda>x. name x = name r) ?all)" by blast
    with rn last_all have rl: "r = last (filter ?P ?S)" by simp
    from some_here have "last (filter ?P ?S) \<in> set (filter ?P ?S)" by (rule last_in_set)
    with rl have "r \<in> set ?S" by simp
    with r rn rl show "\<exists>r \<in> set loaded. name r = name s \<and>
           r = last (filter (\<lambda>x. name x = name s) ?S) \<and> r \<in> set ?S" by blast
  qed
  from upd d lastwins layered show ?thesis by (intro conjI)
qed

lemma layered_user:
  "sourceSkills directoryParser layeredBackend () ''/skills/user''
   = [skillOf ''code-review'' ''Review code, user rules'' ''/skills/user/code-review/SKILL.md'']"
  by code_simp

lemma layered_all:
  "skillsBeforeAgent directoryParser (Instance layeredBackend) [''/skills/base'', ''/skills/user'']
     [] emptyState ()
   = (Some [skillOf ''code-review'' ''Review code, user rules'' ''/skills/user/code-review/SKILL.md''],
      [skillOf ''code-review'' ''Review code, user rules'' ''/skills/user/code-review/SKILL.md''],
      [])"
  by code_simp

theorem skillsBeforeAgent_last_source_wins_witness:
  "skillOf ''code-review'' ''Review code, user rules'' ''/skills/user/code-review/SKILL.md''
     \<in> set (fst (snd (skillsBeforeAgent directoryParser (Instance layeredBackend)
                         [''/skills/base'', ''/skills/user''] [] emptyState ()))) \<and>
   sourceSkills directoryParser layeredBackend () ''/skills/base''
     = [skillOf ''code-review'' ''Review code, base rules'' ''/skills/base/code-review/SKILL.md''] \<and>
   skillsBeforeAgent directoryParser (Instance layeredBackend) [''/skills/base'', ''/skills/user'']
     [] emptyState ()
   = (Some [skillOf ''code-review'' ''Review code, user rules'' ''/skills/user/code-review/SKILL.md''],
      [skillOf ''code-review'' ''Review code, user rules'' ''/skills/user/code-review/SKILL.md''],
      [])"
proof -
  let ?user = "skillOf ''code-review'' ''Review code, user rules'' ''/skills/user/code-review/SKILL.md''"
  let ?R = "skillsBeforeAgent directoryParser (Instance layeredBackend)
              [''/skills/base'', ''/skills/user''] [] emptyState ()"
  have st: "skillsMetadata emptyState = None \<or> skillsMetadata emptyState = Some []"
    by (simp add: emptyState_def)
  have rb: "layeredBackend = getBackend (Instance layeredBackend) \<lparr>state = emptyState, store = None\<rparr>"
    by (simp add: getBackend_def)
  note th = skillsBeforeAgent_last_source_wins [OF st rb refl, of directoryParser
      "[''/skills/base'', ''/skills/user'']" "()"]
  from th have "[''/skills/base'', ''/skills/user''] = [''/skills/base''] @ ''/skills/user'' # [] \<and>
      ?user \<in> set (sourceSkills directoryParser layeredBackend () ''/skills/user'') \<and>
      (\<forall>l \<in> set []. \<forall>x \<in> set (sourceSkills directoryParser layeredBackend () l). name x \<noteq> name ?user)
      \<longrightarrow> (\<exists>r \<in> set (fst (snd ?R)). name r = name ?user \<and>
           r = last (filter (\<lambda>x. name x = name ?user)
                       (sourceSkills directoryParser layeredBackend () ''/skills/user'')) \<and>
           r \<in> set (sourceSkills directoryParser layeredBackend () ''/skills/user''))"
    by blast
  then obtain r where "r \<in> set (fst (snd ?R))"
      and "r \<in> set (sourceSkills directoryParser layeredBackend () ''/skills/user'')"
    by (auto simp: layered_user)
  then have a: "?user \<in> set (fst (snd ?R))" by (simp add: layered_user)
  have b: "sourceSkills directoryParser layeredBackend () ''/skills/base''
     = [skillOf ''code-review'' ''Review code, base rules'' ''/skills/base/code-review/SKILL.md'']"
    by code_simp
  from a b layered_all show ?thesis by (intro conjI)
qed

section \<open>Properties of the memory loader\<close>










end
